theory Spec2Isabelle
  imports Main "HOL-Library.Sublist" "HOL-Library.AList"
begin

section \<open>JavaScript values\<close>

text \<open>
  The values the Adapter handles: what \<^verbatim>\<open>JSON.parse\<close> produces, plus \<^verbatim>\<open>undefined\<close>.
  An object is its list of own properties in insertion order. An array carries its elements
  and, second, the named properties assigned to it (an array is an object too: the code
  assigns \<^verbatim>\<open>t.id\<close>, \<^verbatim>\<open>t.type\<close> ... to whatever element the response held).
  Numbers are the integers; fractional numbers are outside this embedding.
\<close>

datatype jsval =
    JUndefined
  | JNull
  | JBool bool
  | JNum int
  | JStr string
  | JArr "jsval list" "(string \<times> jsval) list"
  | JObj "(string \<times> jsval) list"

type_synonym props = "(string \<times> jsval) list"

text \<open>Truthiness, as \<^verbatim>\<open>||\<close> and \<^verbatim>\<open>if\<close> test it.\<close>

fun truthy :: "jsval \<Rightarrow> bool" where
  "truthy JUndefined = False"
| "truthy JNull = False"
| "truthy (JBool b) = b"
| "truthy (JNum n) = (n \<noteq> 0)"
| "truthy (JStr s) = (s \<noteq> [])"
| "truthy (JArr xs ps) = True"
| "truthy (JObj ps) = True"

definition js_or :: "jsval \<Rightarrow> jsval \<Rightarrow> jsval" where
  "js_or a b = (if truthy a then a else b)"

text \<open>Reading a property: an absent one reads as \<^verbatim>\<open>undefined\<close>.\<close>

definition prop_get :: "props \<Rightarrow> string \<Rightarrow> jsval" where
  "prop_get ps k = (case map_of ps k of None \<Rightarrow> JUndefined | Some v \<Rightarrow> v)"

text \<open>Assigning a property: in place when it exists, appended otherwise.\<close>

definition prop_set :: "props \<Rightarrow> string \<Rightarrow> jsval \<Rightarrow> props" where
  "prop_set ps k v = AList.update k v ps"

subsection \<open>Strings\<close>

fun show_nat :: "nat \<Rightarrow> string" where
  "show_nat n =
     (if n < 10 then [''0123456789'' ! n]
      else show_nat (n div 10) @ [''0123456789'' ! (n mod 10)])"

declare show_nat.simps [simp del]

definition show_int :: "int \<Rightarrow> string" where
  "show_int i = (if i < 0 then CHR ''-'' # show_nat (nat (- i)) else show_nat (nat i))"

fun join :: "string \<Rightarrow> string list \<Rightarrow> string" where
  "join sep [] = []"
| "join sep [x] = x"
| "join sep (x # y # ys) = x @ sep @ join sep (y # ys)"

text \<open>
  \<^verbatim>\<open>ToString\<close>, which a template literal applies to each \<^verbatim>\<open>${...}\<close>. An array joins its
  elements with commas, \<^verbatim>\<open>null\<close> and \<^verbatim>\<open>undefined\<close> elements giving the empty string.
\<close>

fun js_to_string :: "jsval \<Rightarrow> string" where
  "js_to_string JUndefined = ''undefined''"
| "js_to_string JNull = ''null''"
| "js_to_string (JBool b) = (if b then ''true'' else ''false'')"
| "js_to_string (JNum n) = show_int n"
| "js_to_string (JStr s) = s"
| "js_to_string (JArr xs ps) =
     join '','' (map (\<lambda>x. if x = JNull \<or> x = JUndefined then [] else js_to_string x) xs)"
| "js_to_string (JObj ps) = ''[object Object]''"

text \<open>
  \<^verbatim>\<open>s.indexOf(pat, pos)\<close>: the first position at or after \<open>pos\<close> where \<open>pat\<close> occurs,
  or \<open>-1\<close>.
\<close>

fun index_of :: "string \<Rightarrow> string \<Rightarrow> int" where
  "index_of pat [] = (if pat = [] then 0 else - 1)"
| "index_of pat (c # cs) =
     (if prefix pat (c # cs) then 0
      else (let r = index_of pat cs in if r < 0 then - 1 else r + 1))"

definition indexOf :: "string \<Rightarrow> string \<Rightarrow> nat \<Rightarrow> int" where
  "indexOf s pat pos =
     (let k = min pos (length s); r = index_of pat (drop k s)
      in if r < 0 then - 1 else int k + r)"

text \<open>\<^verbatim>\<open>s.substr(start, len)\<close>, with the clamping of the language.\<close>

definition substr :: "string \<Rightarrow> int \<Rightarrow> int \<Rightarrow> string" where
  "substr s start len =
     (let n = int (length s);
          st = (if start < 0 then max (n + start) 0 else min start n);
          ln = max 0 (min len (n - st))
      in take (nat ln) (drop (nat st) s))"

text \<open>\<^verbatim>\<open>s.replace(pat, rep)\<close> with a string pattern: the first occurrence only.\<close>

fun str_replace :: "string \<Rightarrow> string \<Rightarrow> string \<Rightarrow> string" where
  "str_replace pat rep [] = (if pat = [] then rep else [])"
| "str_replace pat rep (c # cs) =
     (if prefix pat (c # cs) then rep @ drop (length pat) (c # cs)
      else c # str_replace pat rep cs)"

subsection \<open>The deep copy through JSON\<close>

text \<open>
  \<^verbatim>\<open>JSON.parse(JSON.stringify(v))\<close> for an object or array \<open>v\<close>: a property whose value is
  \<^verbatim>\<open>undefined\<close> is left out, an \<^verbatim>\<open>undefined\<close> array element becomes \<^verbatim>\<open>null\<close>, the named
  properties of an array are not serialised, everything else is copied.
\<close>

fun json_clone :: "jsval \<Rightarrow> jsval" where
  "json_clone (JObj ps) =
     JObj (map (\<lambda>(k, v). (k, json_clone v)) (filter (\<lambda>(k, v). v \<noteq> JUndefined) ps))"
| "json_clone (JArr xs ps) =
     JArr (map (\<lambda>x. if x = JUndefined then JNull else json_clone x) xs) []"
| "json_clone v = v"

text \<open>
  The values \<^verbatim>\<open>JSON.parse\<close> can return: no \<^verbatim>\<open>undefined\<close> anywhere, each property of an object
  once, and arrays without named properties.
\<close>

fun json_value :: "jsval \<Rightarrow> bool" where
  "json_value JUndefined = False"
| "json_value (JObj ps) = (distinct (map fst ps) \<and> list_all (\<lambda>(k, v). json_value v) ps)"
| "json_value (JArr xs ps) = (list_all json_value xs \<and> ps = [])"
| "json_value v = True"


text \<open>
  Reading a property of a value. Objects and arrays answer from their own properties; a
  primitive has none of the names read here. (On \<^verbatim>\<open>null\<close> and \<^verbatim>\<open>undefined\<close> the language
  throws; \<open>setTargetInfo\<close> below makes that case explicit before it reads, and the endpoint
  table only ever holds copies of objects and arrays.)
\<close>

fun js_get :: "jsval \<Rightarrow> string \<Rightarrow> jsval" where
  "js_get (JObj ps) k = prop_get ps k"
| "js_get (JArr xs ps) k = prop_get ps k"
| "js_get v k = JUndefined"

text \<open>
  The own named properties of a value that can take assignments, and the same value with
  these properties replaced. Assigning to a property of a primitive, or reading one of
  \<^verbatim>\<open>null\<close>, throws \<^verbatim>\<open>TypeError\<close> (the module is strict code).
\<close>

fun named_props :: "jsval \<Rightarrow> props option" where
  "named_props (JObj ps) = Some ps"
| "named_props (JArr xs ps) = Some ps"
| "named_props v = None"

fun with_props :: "jsval \<Rightarrow> props \<Rightarrow> jsval" where
  "with_props (JArr xs ps) qs = JArr xs qs"
| "with_props v qs = JObj qs"

section \<open>The collaborators of the Adapter\<close>

datatype js_error = TypeError | SyntaxError

datatype log_entry = Log string | Error string

type_synonym WebSocket = nat

text \<open>
  Modelled from the spec: the options type \<^verbatim>\<open>IAdapterOptions\<close> is declared in
  \<^verbatim>\<open>adapterInterfaces\<close>, which is not among the sources. The fields are those the class reads
  (the configuration surface of the spec: polling interval, discovery base URL, path and
  port, optional subprocess path and argument list); each may be left undefined.
\<close>

record IAdapterOptions =
  pollingInterval :: "int option"
  baseUrl :: "string option"
  path :: "string option"
  port :: "int option"
  proxyExePath :: "string option"
  proxyExeArgs :: "string list option"

text \<open>\<^verbatim>\<open>x || d\<close> on an optional number and on an optional string.\<close>

definition num_or :: "int option \<Rightarrow> int \<Rightarrow> int" where
  "num_or x d = (case x of None \<Rightarrow> d | Some n \<Rightarrow> if n \<noteq> 0 then n else d)"

definition str_or :: "string option \<Rightarrow> string \<Rightarrow> string" where
  "str_or x d = (case x of None \<Rightarrow> d | Some s \<Rightarrow> if s \<noteq> [] then s else d)"

text \<open>
  Modelled from the spec: the Target Session class \<^verbatim>\<open>Target\<close> of \<^verbatim>\<open>../protocols/target\<close> is
  not among the sources. The spec gives its interface: it is constructed from a target id
  and the Real Endpoint Record, \<^verbatim>\<open>connectTo(realWebSocketUrl, clientConnection)\<close> establishes
  the runtime-side connection and binds the client, \<^verbatim>\<open>updateClient(clientConnection)\<close>
  replaces the client, \<^verbatim>\<open>forward(message)\<close> takes an opaque message, and it emits a closure
  notification. The model records what each call was given. \<open>ref\<close> is the identity of the
  object: the number of \<open>Target\<close> objects constructed before it.
\<close>

record Target =
  ref :: nat
  target_id :: string
  target_data :: jsval
  remote :: "jsval option"
  client :: "WebSocket option"
  forwarded :: "string list"
  socketClosed_listeners :: nat

definition new_Target :: "nat \<Rightarrow> string \<Rightarrow> jsval \<Rightarrow> Target" where
  "new_Target r targetId targetData =
     \<lparr>ref = r, target_id = targetId, target_data = targetData, remote = None, client = None,
      forwarded = [], socketClosed_listeners = 0\<rparr>"

definition Target_connectTo :: "Target \<Rightarrow> jsval \<Rightarrow> WebSocket \<Rightarrow> Target" where
  "Target_connectTo t u wsFrom = t\<lparr>remote := Some u, client := Some wsFrom\<rparr>"

definition Target_updateClient :: "Target \<Rightarrow> WebSocket \<Rightarrow> Target" where
  "Target_updateClient t wsFrom = t\<lparr>client := Some wsFrom\<rparr>"

definition Target_forward :: "Target \<Rightarrow> string \<Rightarrow> Target" where
  "Target_forward t message = t\<lparr>forwarded := forwarded t @ [message]\<rparr>"

definition Target_on_socketClosed :: "Target \<Rightarrow> Target" where
  "Target_on_socketClosed t = t\<lparr>socketClosed_listeners := Suc (socketClosed_listeners t)\<rparr>"

text \<open>
  A child process as \<^verbatim>\<open>spawn\<close> was asked for it. Its handle is its position in the list of
  all processes spawned.
\<close>

record ChildProcess =
  command :: string
  argv :: "string list option"
  detached :: bool
  stdio :: "string list"
  error_listeners :: nat

text \<open>What the \<^verbatim>\<open>request\<close> callback is given: a transport error, or a response and its body.\<close>

datatype http_result = RequestError string | Response nat string

text \<open>
  What becomes of the promise \<open>getTargets\<close> returns: resolved with the targets, or left
  pending for ever because the callback threw (nothing in the class calls \<^verbatim>\<open>reject\<close>).
\<close>

datatype promise = Resolved "jsval list" | NeverSettled js_error

section \<open>The Adapter\<close>

text \<open>
  The fields of the class, then what it acts on outside itself: the processes spawned, the
  signals sent, the number of \<open>Target\<close> objects constructed, the log lines and the events
  emitted. Both maps are lists of entries in insertion order. A \<open>Target\<close> is held by value:
  a method call on the shared object is written back into the entry.
\<close>

record Adapter =
  adapter_id :: string
  adapterType :: string
  proxyUrl :: string
  options :: IAdapterOptions
  url :: string
  proxyProc :: "nat option"
  targetMap :: "(string \<times> Target) list"
  targetIdToTargetDataMap :: "(jsval \<times> jsval) list"
  children :: "ChildProcess list"
  kills :: "(nat \<times> string) list"
  constructed :: nat
  logged :: "log_entry list"
  emitted :: "(string \<times> string) list"

text \<open>
  \<^verbatim>\<open>Map\<close>: keys compare by value when they are primitives. An object or array used as a key
  is a reference no later key equals, so setting it always adds an entry.
\<close>

definition Map_has :: "('k \<times> 'v) list \<Rightarrow> 'k \<Rightarrow> bool" where
  "Map_has m k = (map_of m k \<noteq> None)"

definition Map_set :: "('k \<times> 'v) list \<Rightarrow> 'k \<Rightarrow> 'v \<Rightarrow> ('k \<times> 'v) list" where
  "Map_set m k v = AList.update k v m"

fun is_reference :: "jsval \<Rightarrow> bool" where
  "is_reference (JObj ps) = True"
| "is_reference (JArr xs ps) = True"
| "is_reference v = False"

definition Map_set_val :: "(jsval \<times> 'v) list \<Rightarrow> jsval \<Rightarrow> 'v \<Rightarrow> (jsval \<times> 'v) list" where
  "Map_set_val m k v = (if is_reference k then m @ [(k, v)] else Map_set m k v)"

text \<open>
  Modelled from the spec: the \<^verbatim>\<open>Logger\<close> class of \<^verbatim>\<open>../logger\<close> is not among the sources; the spec
  treats logging as an external collaborator that failures are reported to. The model keeps
  the lines in the order written, those of \<^verbatim>\<open>Logger.log\<close> and those of \<^verbatim>\<open>Logger.error\<close>.
\<close>

definition Logger_log :: "Adapter \<Rightarrow> string \<Rightarrow> Adapter" where
  "Logger_log s msg = s\<lparr>logged := logged s @ [Log msg]\<rparr>"

definition Logger_error :: "Adapter \<Rightarrow> string \<Rightarrow> Adapter" where
  "Logger_error s msg = s\<lparr>logged := logged s @ [Error msg]\<rparr>"

text \<open>The constructor (lines 24-47).\<close>

definition new_Adapter :: "string \<Rightarrow> string \<Rightarrow> IAdapterOptions \<Rightarrow> Adapter" where
  "new_Adapter i socket opts =
     (let interval = num_or (pollingInterval opts) 3000;
          bu = str_or (baseUrl opts) ''http://127.0.0.1'';
          pa = str_or (path opts) ''/json'';
          po = num_or (port opts) 9222;
          opts' = opts\<lparr>pollingInterval := Some interval, baseUrl := Some bu, path := Some pa,
                       port := Some po\<rparr>;
          index = indexOf i ''/'' 1
      in \<lparr>adapter_id = i,
          adapterType =
            (if index \<ge> 0 then ''_'' @ substr i 1 (index - 1)
             else str_replace ''/'' ''_'' i),
          proxyUrl = socket,
          options = opts',
          url = bu @ '':'' @ show_int po @ pa,
          proxyProc = None,
          targetMap = [],
          targetIdToTargetDataMap = [],
          children = [],
          kills = [],
          constructed = 0,
          logged = [],
          emitted = []\<rparr>)"

text \<open>\<^verbatim>\<open>process.kill(signal)\<close>: the signal is sent; the handle stays what it was.\<close>

definition kill :: "Adapter \<Rightarrow> nat \<Rightarrow> string \<Rightarrow> Adapter" where
  "kill s process signal = s\<lparr>kills := kills s @ [(process, signal)]\<rparr>"

definition spawnProcess :: "Adapter \<Rightarrow> string \<Rightarrow> string list option \<Rightarrow> Adapter \<times> nat" where
  "spawnProcess s p args =
     (case proxyProc s of
        None \<Rightarrow>
          (let h = length (children s);
               proc = \<lparr>command = p, argv = args, detached = True, stdio = [''ignore''],
                       error_listeners = 1\<rparr>
           in (s\<lparr>children := children s @ [proc], proxyProc := Some h\<rparr>, h))
      | Some h \<Rightarrow> (s, h))"

definition start :: "Adapter \<Rightarrow> Adapter" where
  "start s =
     (let s1 = Logger_log s ''adapter.start''
      in case proxyExePath (options s1) of
           None \<Rightarrow> s1
         | Some p \<Rightarrow>
             if p \<noteq> [] then fst (spawnProcess s1 p (proxyExeArgs (options s1))) else s1)"

definition stop :: "Adapter \<Rightarrow> Adapter" where
  "stop s =
     (case proxyProc s of
        None \<Rightarrow> s
      | Some h \<Rightarrow> (kill s h ''SIGTERM'')\<lparr>proxyProc := None\<rparr>)"

text \<open>The listener \<open>spawnProcess\<close> puts on the child's \<^verbatim>\<open>error\<close> event.\<close>

definition on_error :: "Adapter \<Rightarrow> Adapter" where
  "on_error s = stop s"

definition refereshProcess :: "Adapter \<Rightarrow> nat \<Rightarrow> string \<Rightarrow> string list \<Rightarrow> Adapter" where
  "refereshProcess s process p args =
     (let s1 = kill s process ''SIGTERM''
      in fst (spawnProcess s1 p (Some args)))"

definition forceRefresh :: "Adapter \<Rightarrow> Adapter" where
  "forceRefresh s =
     (case (proxyProc s, proxyExePath (options s), proxyExeArgs (options s)) of
        (Some process, Some p, Some args) \<Rightarrow>
          if p \<noteq> [] then refereshProcess s process p args else s
      | _ \<Rightarrow> s)"


text \<open>
  \<open>setTargetInfo\<close> (lines 127-149). The descriptor \<open>t\<close> is mutated in place, so each
  assignment gives the next version of its properties; \<open>t4\<close> is the descriptor as it stands
  when the copy is taken.
\<close>

definition viewer :: string where
  "viewer = ''https://chrome-devtools-frontend.appspot.com/serve_file/@60cd6e859b9f557d2312f5bf532f6aec5f284980/inspector.html?experiments=true&ws=''"

definition setTargetInfo :: "Adapter \<Rightarrow> jsval \<Rightarrow> jsval \<Rightarrow> js_error + Adapter \<times> jsval" where
  "setTargetInfo s t metadata =
     (case named_props t of
        None \<Rightarrow> Inl TypeError
      | Some ps \<Rightarrow>
          (let id = js_or (prop_get ps ''id'') (prop_get ps ''appId'');
               t1 = prop_set ps ''id'' id;
               t2 = prop_set t1 ''adapterType'' (JStr (adapterType s));
               t3 = prop_set t2 ''type'' (js_or (prop_get t2 ''type'') (JStr ''page''));
               t4 = prop_set t3 ''metadata'' metadata;
               targetData = json_clone (with_props t t4);
               s' = s\<lparr>targetIdToTargetDataMap :=
                        Map_set_val (targetIdToTargetDataMap s) (prop_get t4 ''id'') targetData\<rparr>;
               t5 = prop_set t4 ''webSocketDebuggerUrl''
                      (JStr (proxyUrl s @ adapter_id s @ ''/'' @ js_to_string (prop_get t4 ''id'')));
               wsUrl = str_replace ''ws://'' [] (proxyUrl s) @ adapter_id s @ ''/''
                         @ js_to_string (prop_get t5 ''id'');
               t6 = prop_set t5 ''devtoolsFrontendUrl'' (JStr (viewer @ wsUrl))
           in Inr (s', with_props t t6)))"

text \<open>
  The \<^verbatim>\<open>forEach\<close> of \<open>getTargets\<close>: each raw target in turn, the results pushed onto
  \<open>targets\<close>. If one call throws, the loop ends there and what the earlier calls stored stays.
\<close>

fun forEach_setTargetInfo ::
  "Adapter \<Rightarrow> jsval \<Rightarrow> jsval list \<Rightarrow> jsval list \<Rightarrow> Adapter \<times> (js_error + jsval list)" where
  "forEach_setTargetInfo s metadata [] targets = (s, Inr targets)"
| "forEach_setTargetInfo s metadata (t # ts) targets =
     (case setTargetInfo s t metadata of
        Inl e \<Rightarrow> (s, Inl e)
      | Inr (s', t') \<Rightarrow> forEach_setTargetInfo s' metadata ts (targets @ [t']))"

text \<open>
  \<open>getTargets\<close> (lines 69-86), from the moment the \<^verbatim>\<open>request\<close> callback runs. \<open>JSON_parse\<close> is
  the parser of the runtime, a parameter here: \<open>None\<close> where it throws \<^verbatim>\<open>SyntaxError\<close>. The
  status code of the response is carried but the callback does not read it. A parsed value
  that is not an array has no \<^verbatim>\<open>forEach\<close>: the call throws \<^verbatim>\<open>TypeError\<close>.
\<close>

definition getTargets ::
  "(string \<Rightarrow> jsval option) \<Rightarrow> Adapter \<Rightarrow> jsval \<Rightarrow> http_result \<Rightarrow> Adapter \<times> promise" where
  "getTargets JSON_parse s metadata res =
     (case res of
        RequestError e \<Rightarrow> (s, Resolved [])
      | Response status body \<Rightarrow>
          (case JSON_parse body of
             None \<Rightarrow> (s, NeverSettled SyntaxError)
           | Some (JArr rawTargets ps) \<Rightarrow>
               (case forEach_setTargetInfo s metadata rawTargets [] of
                  (s', Inl e) \<Rightarrow> (s', NeverSettled e)
                | (s', Inr targets) \<Rightarrow> (s', Resolved targets))
           | Some v \<Rightarrow> (s, NeverSettled TypeError)))"

text \<open>\<open>connectTo\<close> (lines 88-110); \<^verbatim>\<open>null\<close> is \<open>None\<close>.\<close>

definition connectTo :: "Adapter \<Rightarrow> string \<Rightarrow> WebSocket \<Rightarrow> Adapter \<times> Target option" where
  "connectTo s targetId wsFrom =
     (case map_of (targetIdToTargetDataMap s) (JStr targetId) of
        None \<Rightarrow> (Logger_error s (''No endpoint url found for id '' @ targetId), None)
      | Some targetData \<Rightarrow>
          (case map_of (targetMap s) targetId of
             Some target \<Rightarrow>
               (let s1 = Logger_log s (''Existing target found for id '' @ targetId);
                    target' = Target_updateClient target wsFrom
                in (s1\<lparr>targetMap := Map_set (targetMap s1) targetId target'\<rparr>, Some target'))
           | None \<Rightarrow>
               (let target = new_Target (constructed s) targetId targetData;
                    target1 = Target_connectTo target (js_get targetData ''webSocketDebuggerUrl'') wsFrom;
                    target2 = Target_on_socketClosed target1
                in (s\<lparr>constructed := Suc (constructed s),
                       targetMap := Map_set (targetMap s) targetId target2\<rparr>, Some target2))))"

text \<open>The listener \<open>connectTo\<close> puts on the target's \<^verbatim>\<open>socketClosed\<close> event.\<close>

definition on_socketClosed :: "Adapter \<Rightarrow> string \<Rightarrow> Adapter" where
  "on_socketClosed s i = s\<lparr>emitted := emitted s @ [(''socketClosed'', i)]\<rparr>"

text \<open>\<open>forwardTo\<close> (lines 112-119).\<close>

definition forwardTo :: "Adapter \<Rightarrow> string \<Rightarrow> string \<Rightarrow> Adapter" where
  "forwardTo s targetId message =
     (case map_of (targetMap s) targetId of
        None \<Rightarrow> Logger_error s (''No target found for id '' @ targetId)
      | Some target \<Rightarrow> s\<lparr>targetMap := Map_set (targetMap s) targetId (Target_forward target message)\<rparr>)"

section \<open>Runs of the Adapter\<close>

text \<open>
  Everything that can happen to an Adapter once constructed: a call of a public method, or
  one of the two events it listens to.
\<close>

datatype call =
    Start
  | Stop
  | GetTargets jsval http_result
  | ConnectTo string WebSocket
  | ForwardTo string string
  | ForceRefresh
  | ProcessError
  | SocketClosed string

datatype outcome = Void | Targets promise | Session "Target option"

fun exec :: "(string \<Rightarrow> jsval option) \<Rightarrow> Adapter \<Rightarrow> call \<Rightarrow> Adapter \<times> outcome" where
  "exec P s Start = (start s, Void)"
| "exec P s Stop = (stop s, Void)"
| "exec P s (GetTargets metadata res) = (case getTargets P s metadata res of (s', r) \<Rightarrow> (s', Targets r))"
| "exec P s (ConnectTo targetId wsFrom) = (case connectTo s targetId wsFrom of (s', r) \<Rightarrow> (s', Session r))"
| "exec P s (ForwardTo targetId message) = (forwardTo s targetId message, Void)"
| "exec P s ForceRefresh = (forceRefresh s, Void)"
| "exec P s ProcessError = (on_error s, Void)"
| "exec P s (SocketClosed i) = (on_socketClosed s i, Void)"

fun run :: "(string \<Rightarrow> jsval option) \<Rightarrow> Adapter \<Rightarrow> call list \<Rightarrow> Adapter \<times> outcome list" where
  "run P s [] = (s, [])"
| "run P s (c # cs) =
     (case exec P s c of (s', r) \<Rightarrow> (case run P s' cs of (s'', rs) \<Rightarrow> (s'', r # rs)))"


section \<open>Definitions used to state the properties\<close>

text \<open>
  The adapter type as the spec words it in its section 4.4: the path segment between the
  first and the second \<open>/\<close> if present, prefixed with \<open>_\<close>; otherwise the id with its leading
  \<open>/\<close> stripped.
\<close>

definition spec_adapterType :: "string \<Rightarrow> string" where
  "spec_adapterType i =
     (if CHR ''/'' \<in> set (tl i) then ''_'' @ takeWhile (\<lambda>c. c \<noteq> CHR ''/'') (tl i)
      else tl i)"

text \<open>The id a raw descriptor is given (line 129).\<close>

definition normalized_id :: "props \<Rightarrow> jsval" where
  "normalized_id ps = js_or (prop_get ps ''id'') (prop_get ps ''appId'')"

text \<open>
  The descriptor as it stands immediately before URL rewriting: after the assignments of
  lines 130-137 (id, adapter type, type, metadata) and nothing else.
\<close>

definition before_rewrite :: "Adapter \<Rightarrow> props \<Rightarrow> jsval \<Rightarrow> props" where
  "before_rewrite s ps metadata =
     prop_set
       (prop_set
          (prop_set (prop_set ps ''id'' (normalized_id ps)) ''adapterType'' (JStr (adapterType s)))
          ''type'' (js_or (prop_get ps ''type'') (JStr ''page'')))
       ''metadata'' metadata"

text \<open>The descriptor \<open>setTargetInfo\<close> returns: the two URL properties assigned on top.\<close>

definition after_rewrite :: "Adapter \<Rightarrow> props \<Rightarrow> jsval \<Rightarrow> props" where
  "after_rewrite s ps metadata =
     prop_set
       (prop_set (before_rewrite s ps metadata) ''webSocketDebuggerUrl''
          (JStr (proxyUrl s @ adapter_id s @ ''/'' @ js_to_string (normalized_id ps))))
       ''devtoolsFrontendUrl''
       (JStr (viewer @ str_replace ''ws://'' [] (proxyUrl s) @ adapter_id s @ ''/''
                @ js_to_string (normalized_id ps)))"

text \<open>The endpoint table after \<open>setTargetInfo\<close> has stored the copy of one descriptor.\<close>

definition store_record :: "Adapter \<Rightarrow> jsval \<Rightarrow> (jsval \<times> jsval) list \<Rightarrow> props \<Rightarrow> (jsval \<times> jsval) list" where
  "store_record s metadata m ps =
     Map_set_val m (normalized_id ps) (json_clone (JObj (before_rewrite s ps metadata)))"

text \<open>
  The invariant of the binding table: each id at most once, each session object at most
  once, and every bound session filed under its own id, for an id that has a Real Endpoint
  Record, and constructed by this Adapter.
\<close>

definition binding_inv :: "Adapter \<Rightarrow> bool" where
  "binding_inv s \<longleftrightarrow>
     distinct (map fst (targetMap s)) \<and>
     distinct (map (\<lambda>(k, t). ref t) (targetMap s)) \<and>
     (\<forall>(k, t) \<in> set (targetMap s).
        Map_has (targetIdToTargetDataMap s) (JStr k) \<and> target_id t = k \<and> ref t < constructed s)"

subsection \<open>A concrete Adapter and a concrete discovery response\<close>

definition example_options :: IAdapterOptions where
  "example_options =
     \<lparr>pollingInterval = None, baseUrl = None, path = None, port = None,
      proxyExePath = Some ''/usr/bin/ios_webkit_debug_proxy'', proxyExeArgs = Some [''-F'']\<rparr>"

definition example_adapter :: Adapter where
  "example_adapter = new_Adapter ''/ios/device1'' ''ws://localhost:9000'' example_options"

definition example_body :: string where
  \<open>example_body = ''[{"id":"A","webSocketDebuggerUrl":"ws://127.0.0.1:9222/devtools/page/A"}]''\<close>

definition example_raw :: props where
  "example_raw =
     [(''id'', JStr ''A''),
      (''webSocketDebuggerUrl'', JStr ''ws://127.0.0.1:9222/devtools/page/A'')]"

text \<open>A second response: two descriptors with no \<open>id\<close> and no \<open>appId\<close>.\<close>

definition example_nameless_body :: string where
  \<open>example_nameless_body = ''[{"title":"one"},{"title":"two"}]''\<close>

definition example_nameless :: "props list" where
  "example_nameless = [[(''title'', JStr ''one'')], [(''title'', JStr ''two'')]]"

text \<open>A parser that knows the two bodies above (and rejects everything else).\<close>

definition example_parse :: "string \<Rightarrow> jsval option" where
  "example_parse body =
     (if body = example_body then Some (JArr [JObj example_raw] [])
      else if body = example_nameless_body then Some (JArr (map JObj example_nameless) [])
      else None)"

definition example_metadata :: jsval where
  "example_metadata = JObj [(''deviceName'', JStr ''iPhone'')]"

text \<open>The record the example discovery stores for target \<open>A\<close>, and the session bound to it.\<close>

definition example_record :: jsval where
  "example_record =
     JObj [(''id'', JStr ''A''),
           (''webSocketDebuggerUrl'', JStr ''ws://127.0.0.1:9222/devtools/page/A''),
           (''adapterType'', JStr ''_ios''),
           (''type'', JStr ''page'')]"

definition example_session :: Target where
  "example_session =
     \<lparr>ref = 0, target_id = ''A'', target_data = example_record,
      remote = Some (JStr ''ws://127.0.0.1:9222/devtools/page/A''),
      client = Some 1, forwarded = [], socketClosed_listeners = 1\<rparr>"

text \<open>The example Adapter started and after one discovery; then with a client connected.\<close>

definition example_calls :: "call list" where
  "example_calls = [Start, GetTargets JUndefined (Response 200 example_body)]"

definition example_discovered :: Adapter where
  "example_discovered = fst (run example_parse example_adapter example_calls)"

definition example_bound :: Adapter where
  "example_bound = fst (run example_parse example_adapter (example_calls @ [ConnectTo ''A'' 1]))"

section \<open>The JSON copy and the rewrite of a descriptor\<close>

lemma json_value_not_undefined: "json_value v \<Longrightarrow> v \<noteq> JUndefined"
  by (cases v) auto

lemma json_clone_json_value: "json_value v \<Longrightarrow> json_clone v = v"
proof (induction v rule: json_clone.induct)
  case (1 ps)
  have keep: "filter (\<lambda>(k, v). v \<noteq> JUndefined) ps = ps"
    using 1(2) by (auto simp: list_all_iff intro!: filter_True dest: json_value_not_undefined)
  have "map (\<lambda>(k, v). (k, json_clone v)) ps = ps"
    using 1 keep by (auto simp: list_all_iff intro!: map_idI)
  with keep show ?case by simp
next
  case (2 xs ps)
  have "map (\<lambda>x. if x = JUndefined then JNull else json_clone x) xs = xs"
    using 2 by (auto simp: list_all_iff intro!: map_idI dest: json_value_not_undefined)
  with 2(2) show ?case by simp
qed simp_all

lemma prop_get_set: "prop_get (prop_set ps k v) k' = (if k' = k then v else prop_get ps k')"
  by (simp add: prop_get_def prop_set_def update_conv')

lemma setTargetInfo_JObj:
  "setTargetInfo s (JObj ps) metadata =
     Inr (s\<lparr>targetIdToTargetDataMap := store_record s metadata (targetIdToTargetDataMap s) ps\<rparr>,
          JObj (after_rewrite s ps metadata))"
  by (simp add: setTargetInfo_def Let_def prop_get_set store_record_def after_rewrite_def
      before_rewrite_def normalized_id_def)

lemma before_rewrite_table [simp]:
  "before_rewrite (s\<lparr>targetIdToTargetDataMap := m\<rparr>) ps metadata = before_rewrite s ps metadata"
  by (simp add: before_rewrite_def)

lemma after_rewrite_table [simp]:
  "after_rewrite (s\<lparr>targetIdToTargetDataMap := m\<rparr>) ps metadata = after_rewrite s ps metadata"
  by (simp add: after_rewrite_def)

lemma store_record_table [simp]:
  "store_record (s\<lparr>targetIdToTargetDataMap := m\<rparr>) metadata = store_record s metadata"
  by (simp add: store_record_def fun_eq_iff)

lemma forEach_objects:
  "forEach_setTargetInfo s metadata (map JObj pss) targets =
     (s\<lparr>targetIdToTargetDataMap := foldl (store_record s metadata) (targetIdToTargetDataMap s) pss\<rparr>,
      Inr (targets @ map (\<lambda>ps. JObj (after_rewrite s ps metadata)) pss))"
proof (induction pss arbitrary: s targets)
  case Nil
  show ?case by simp
next
  case (Cons ps pss)
  show ?case
    by (simp add: setTargetInfo_JObj Cons.IH)
qed

lemma getTargets_objects:
  assumes "JSON_parse body = Some (JArr (map JObj pss) qs)"
  shows "getTargets JSON_parse s metadata (Response status body) =
     (s\<lparr>targetIdToTargetDataMap := foldl (store_record s metadata) (targetIdToTargetDataMap s) pss\<rparr>,
      Resolved (map (\<lambda>ps. JObj (after_rewrite s ps metadata)) pss))"
  using assms by (simp add: getTargets_def forEach_objects)

lemma map_of_Map_set_val:
  "\<not> is_reference k \<Longrightarrow>
   map_of (Map_set_val m k' v) k = (if k' = k then Some v else map_of m k)"
  by (cases "is_reference k'") (auto simp: Map_set_val_def Map_set_def update_conv' map_add_def split: option.splits)

lemma map_of_store_record:
  "\<not> is_reference k \<Longrightarrow>
   map_of (store_record s metadata m ps) k =
     (if normalized_id ps = k then Some (json_clone (JObj (before_rewrite s ps metadata)))
      else map_of m k)"
  unfolding store_record_def by (rule map_of_Map_set_val)

lemma map_of_foldl_store:
  assumes "\<not> is_reference k"
  shows "map_of (foldl (store_record s metadata) m pss) k =
     (case find (\<lambda>ps. normalized_id ps = k) (rev pss) of
        None \<Rightarrow> map_of m k
      | Some ps \<Rightarrow> Some (json_clone (JObj (before_rewrite s ps metadata))))"
proof (induction pss rule: rev_induct)
  case Nil
  show ?case by simp
next
  case (snoc ps pss)
  show ?case
    using assms by (simp add: snoc.IH map_of_store_record del: json_clone.simps)
qed

lemma find_last:
  assumes "k < length pss" and "f (pss ! k)"
    and "\<forall>j. k < j \<and> j < length pss \<longrightarrow> \<not> f (pss ! j)"
  shows "find f (rev pss) = Some (pss ! k)"
  using assms
proof (induction pss rule: rev_induct)
  case Nil
  then show ?case by simp
next
  case (snoc x xs)
  show ?case
  proof (cases "k = length xs")
    case True
    with snoc.prems show ?thesis by simp
  next
    case False
    with snoc.prems have k: "k < length xs" by simp
    have nx: "\<not> f x"
      using snoc.prems(3) k by (auto dest!: spec [of _ "length xs"])
    have "find f (rev xs) = Some (xs ! k)"
    proof (rule snoc.IH [OF k])
      show "f (xs ! k)" using snoc.prems(2) k by (simp add: nth_append)
      show "\<forall>j. k < j \<and> j < length xs \<longrightarrow> \<not> f (xs ! j)"
      proof (intro allI impI)
        fix j assume j: "k < j \<and> j < length xs"
        then have "\<not> f ((xs @ [x]) ! j)" using snoc.prems(3) by simp
        with j show "\<not> f (xs ! j)" by (simp add: nth_append)
      qed
    qed
    with nx k show ?thesis by (simp add: nth_append)
  qed
qed

lemma props_json_update:
  assumes "distinct (map fst ps)" and "list_all (\<lambda>(k, v). json_value v) ps" and "json_value v"
  shows "distinct (map fst (prop_set ps k v)) \<and> list_all (\<lambda>(k, v). json_value v) (prop_set ps k v)"
proof -
  have "list_all (\<lambda>(k, v). json_value v) (AList.update k v ps)"
    using assms(2,3) by (induction ps) auto
  with assms(1) show ?thesis by (simp add: prop_set_def distinct_update)
qed

lemma prop_get_json:
  assumes "list_all (\<lambda>(k, v). json_value v) ps" and "truthy (prop_get ps k)"
  shows "json_value (prop_get ps k)"
proof (cases "map_of ps k")
  case None
  with assms(2) show ?thesis by (simp add: prop_get_def)
next
  case (Some v)
  then have "(k, v) \<in> set ps" by (rule map_of_SomeD)
  with assms(1) Some show ?thesis by (auto simp: prop_get_def list_all_iff)
qed

lemma before_metadata_json:
  assumes "json_value (JObj ps)" and "normalized_id ps = JStr i"
  shows "json_value
           (JObj (prop_set
              (prop_set (prop_set ps ''id'' (normalized_id ps)) ''adapterType'' (JStr a))
              ''type'' (js_or (prop_get ps ''type'') (JStr ''page''))))"
proof -
  have ty: "json_value (js_or (prop_get ps ''type'') (JStr ''page''))"
    using assms(1) by (simp add: js_or_def prop_get_json)
  from assms have 1: "json_value (JObj (prop_set ps ''id'' (normalized_id ps)))"
    using props_json_update [of ps "JStr i" "''id''"] by simp
  then have 2: "json_value (JObj (prop_set (prop_set ps ''id'' (normalized_id ps)) ''adapterType'' (JStr a)))"
    using props_json_update [of "prop_set ps ''id'' (normalized_id ps)" "JStr a" "''adapterType''"] by simp
  then show ?thesis
    using props_json_update [OF _ _ ty, of "prop_set (prop_set ps ''id'' (normalized_id ps)) ''adapterType'' (JStr a)" "''type''"]
    by simp
qed

lemma before_rewrite_json:
  assumes "json_value (JObj ps)" and "normalized_id ps = JStr i" and "json_value metadata"
  shows "json_value (JObj (before_rewrite s ps metadata))"
  using before_metadata_json [OF assms(1,2), of "adapterType s"]
        props_json_update [OF _ _ assms(3), of _ "''metadata''"]
  by (simp add: before_rewrite_def)

lemma clone_drops_undefined_property:
  assumes "json_value (JObj qs)"
  shows "json_clone (JObj (prop_set qs k JUndefined)) =
           JObj (filter (\<lambda>(key, v). key \<noteq> k) (prop_set qs k JUndefined))"
proof -
  let ?B = "prop_set qs k JUndefined"
  from assms have d: "distinct (map fst qs)" and jv: "list_all (\<lambda>(k, v). json_value v) qs"
    by simp_all
  have each: "\<And>k1 v1. (k1, v1) \<in> set ?B \<Longrightarrow> (v1 \<noteq> JUndefined) = (k1 \<noteq> k) \<and> (k1 \<noteq> k \<longrightarrow> json_value v1)"
  proof -
    fix k1 v1 assume m: "(k1, v1) \<in> set ?B"
    have dB: "distinct (map fst ?B)" using d by (simp add: prop_set_def distinct_update)
    from m dB have "map_of ?B k1 = Some v1" by simp
    then have c: "(if k1 = k then Some JUndefined else map_of qs k1) = Some v1"
      by (simp add: prop_set_def update_conv')
    show "(v1 \<noteq> JUndefined) = (k1 \<noteq> k) \<and> (k1 \<noteq> k \<longrightarrow> json_value v1)"
    proof (cases "k1 = k")
      case True
      with c show ?thesis by simp
    next
      case False
      with c have "(k1, v1) \<in> set qs" by (simp add: map_of_SomeD)
      with jv have "json_value v1" by (auto simp: list_all_iff)
      with False show ?thesis by (auto dest: json_value_not_undefined)
    qed
  qed
  have f: "filter (\<lambda>(key, v). v \<noteq> JUndefined) ?B = filter (\<lambda>(key, v). key \<noteq> k) ?B"
    by (rule filter_cong) (use each in auto)
  have "map (\<lambda>(k, v). (k, json_clone v)) (filter (\<lambda>(key, v). key \<noteq> k) ?B)
          = filter (\<lambda>(key, v). key \<noteq> k) ?B"
    by (rule map_idI) (use each in \<open>auto simp: json_clone_json_value\<close>)
  with f show ?thesis by simp
qed

lemma before_rewrite_undefined_metadata:
  assumes "json_value (JObj ps)" and "normalized_id ps = JStr i"
  shows "json_clone (JObj (before_rewrite s ps JUndefined)) =
           JObj (filter (\<lambda>(key, v). key \<noteq> ''metadata'') (before_rewrite s ps JUndefined))"
  unfolding before_rewrite_def
  by (rule clone_drops_undefined_property) (rule before_metadata_json [OF assms])

lemma after_rewrite_url:
  "prop_get (after_rewrite s ps metadata) ''webSocketDebuggerUrl'' =
     JStr (proxyUrl s @ adapter_id s @ ''/'' @ js_to_string (normalized_id ps))"
  by (simp add: after_rewrite_def prop_get_set)


section \<open>What each call leaves unchanged, and the invariant\<close>

lemma start_frame:
  "targetMap (start s) = targetMap s \<and> targetIdToTargetDataMap (start s) = targetIdToTargetDataMap s
   \<and> constructed (start s) = constructed s"
  by (simp add: start_def spawnProcess_def Logger_log_def Let_def split: option.splits)

lemma stop_frame:
  "targetMap (stop s) = targetMap s \<and> targetIdToTargetDataMap (stop s) = targetIdToTargetDataMap s
   \<and> constructed (stop s) = constructed s"
  by (simp add: stop_def kill_def split: option.splits)

lemma forceRefresh_frame:
  "targetMap (forceRefresh s) = targetMap s
   \<and> targetIdToTargetDataMap (forceRefresh s) = targetIdToTargetDataMap s
   \<and> constructed (forceRefresh s) = constructed s"
  by (simp add: forceRefresh_def refereshProcess_def spawnProcess_def kill_def Let_def
      split: option.splits)

lemma on_socketClosed_frame:
  "targetMap (on_socketClosed s i) = targetMap s
   \<and> targetIdToTargetDataMap (on_socketClosed s i) = targetIdToTargetDataMap s
   \<and> constructed (on_socketClosed s i) = constructed s"
  by (simp add: on_socketClosed_def)

lemma Map_has_Map_set_val: "Map_has m k0 \<Longrightarrow> Map_has (Map_set_val m k v) k0"
  by (auto simp: Map_has_def Map_set_val_def Map_set_def update_conv' map_add_def split: option.splits)

lemma setTargetInfo_frame:
  assumes "setTargetInfo s t metadata = Inr (s', t')"
  shows "targetMap s' = targetMap s \<and> constructed s' = constructed s \<and>
         (\<forall>k. Map_has (targetIdToTargetDataMap s) k \<longrightarrow> Map_has (targetIdToTargetDataMap s') k)"
  using assms
  by (auto simp: setTargetInfo_def Let_def Map_has_Map_set_val split: option.splits
      simp del: json_clone.simps)

lemma forEach_frame:
  assumes "forEach_setTargetInfo s metadata ts targets = (s', r)"
  shows "targetMap s' = targetMap s \<and> constructed s' = constructed s \<and>
         (\<forall>k. Map_has (targetIdToTargetDataMap s) k \<longrightarrow> Map_has (targetIdToTargetDataMap s') k)"
  using assms
proof (induction ts arbitrary: s targets)
  case Nil
  then show ?case by simp
next
  case (Cons t ts)
  show ?case
  proof (cases "setTargetInfo s t metadata")
    case (Inl e)
    with Cons.prems show ?thesis by simp
  next
    case (Inr p)
    obtain s1 t1 where p: "p = (s1, t1)" by (cases p)
    from Cons.prems Inr p
    have rest: "forEach_setTargetInfo s1 metadata ts (targets @ [t1]) = (s', r)" by simp
    from setTargetInfo_frame [of s t metadata s1 t1] Inr p Cons.IH [OF rest]
    show ?thesis by simp
  qed
qed

lemma getTargets_frame:
  assumes "getTargets P s metadata res = (s', r)"
  shows "targetMap s' = targetMap s \<and> constructed s' = constructed s \<and>
         (\<forall>k. Map_has (targetIdToTargetDataMap s) k \<longrightarrow> Map_has (targetIdToTargetDataMap s') k)"
proof (cases res)
  case (RequestError e)
  with assms show ?thesis by (simp add: getTargets_def)
next
  case (Response status body)
  show ?thesis
  proof (cases "P body")
    case None
    with assms Response show ?thesis by (simp add: getTargets_def)
  next
    case (Some v)
    show ?thesis
    proof (cases v)
      case (JArr rawTargets ps)
      obtain s1 r1 where f: "forEach_setTargetInfo s metadata rawTargets [] = (s1, r1)"
        by (cases "forEach_setTargetInfo s metadata rawTargets []")
      with assms Response Some JArr have "s' = s1"
        by (cases r1) (simp_all add: getTargets_def)
      with forEach_frame [OF f] show ?thesis by simp
    qed (use assms Response Some in \<open>simp_all add: getTargets_def\<close>)
  qed
qed


lemma update_append: "k \<notin> fst ` set al \<Longrightarrow> AList.update k v al = al @ [(k, v)]"
  by (induction al) auto

lemma connectTo_bound:
  assumes "map_of (targetIdToTargetDataMap s) (JStr targetId) = Some targetData"
      and "map_of (targetMap s) targetId = Some target"
  shows "connectTo s targetId wsFrom =
           (s\<lparr>logged := logged s @ [Log (''Existing target found for id '' @ targetId)],
              targetMap := Map_set (targetMap s) targetId (Target_updateClient target wsFrom)\<rparr>,
            Some (Target_updateClient target wsFrom))"
  using assms by (simp add: connectTo_def Logger_log_def Let_def)

lemma connectTo_fresh:
  assumes "map_of (targetIdToTargetDataMap s) (JStr targetId) = Some targetData"
      and "map_of (targetMap s) targetId = None"
  shows "connectTo s targetId wsFrom =
           (s\<lparr>constructed := Suc (constructed s),
              targetMap := targetMap s @
                [(targetId,
                  \<lparr>ref = constructed s, target_id = targetId, target_data = targetData,
                   remote = Some (js_get targetData ''webSocketDebuggerUrl''),
                   client = Some wsFrom, forwarded = [], socketClosed_listeners = 1\<rparr>)]\<rparr>,
            Some \<lparr>ref = constructed s, target_id = targetId, target_data = targetData,
                  remote = Some (js_get targetData ''webSocketDebuggerUrl''),
                  client = Some wsFrom, forwarded = [], socketClosed_listeners = 1\<rparr>)"
proof -
  have "targetId \<notin> fst ` set (targetMap s)"
    using assms(2) by (simp add: map_of_eq_None_iff)
  then have "AList.update targetId v (targetMap s) = targetMap s @ [(targetId, v)]" for v
    by (rule update_append)
  then show ?thesis
    using assms
    by (simp add: connectTo_def Let_def Map_set_def new_Target_def Target_connectTo_def
        Target_on_socketClosed_def)
qed


lemma binding_inv_frame:
  assumes "binding_inv s"
      and "targetMap s' = targetMap s" and "constructed s' = constructed s"
      and "\<forall>k. Map_has (targetIdToTargetDataMap s) k \<longrightarrow> Map_has (targetIdToTargetDataMap s') k"
  shows "binding_inv s'"
  using assms unfolding binding_inv_def by auto

lemma map_update_same:
  assumes "map_of al k = Some t" and "f t' = f t"
  shows "map (\<lambda>(k, t). f t) (AList.update k t' al) = map (\<lambda>(k, t). f t) al"
  using assms by (induction al) (auto split: if_splits)

lemma in_update_cases:
  assumes "(k1, t1) \<in> set (AList.update k t' al)"
  shows "(k1 = k \<and> t1 = t') \<or> (k1, t1) \<in> set al"
  using assms by (induction al) (auto split: if_splits)

lemma binding_inv_update:
  assumes inv: "binding_inv s"
      and bound: "map_of (targetMap s) k = Some t"
      and same: "ref t' = ref t" "target_id t' = target_id t"
      and s': "targetMap s' = AList.update k t' (targetMap s)"
              "constructed s' = constructed s"
              "targetIdToTargetDataMap s' = targetIdToTargetDataMap s"
  shows "binding_inv s'"
proof -
  from bound have mem: "(k, t) \<in> set (targetMap s)" by (rule map_of_SomeD)
  have keys: "distinct (map fst (targetMap s'))"
    using inv by (simp add: s' binding_inv_def distinct_update)
  have refs: "distinct (map (\<lambda>(k, t). ref t) (targetMap s'))"
    using inv map_update_same [OF bound same(1)] by (simp add: s' binding_inv_def)
  have each: "\<forall>(k1, t1) \<in> set (targetMap s').
        Map_has (targetIdToTargetDataMap s') (JStr k1) \<and> target_id t1 = k1 \<and> ref t1 < constructed s'"
  proof (clarify)
    fix k1 t1 assume "(k1, t1) \<in> set (targetMap s')"
    then have "(k1 = k \<and> t1 = t') \<or> (k1, t1) \<in> set (targetMap s)"
      unfolding s' by (rule in_update_cases)
    then show "Map_has (targetIdToTargetDataMap s') (JStr k1) \<and> target_id t1 = k1 \<and> ref t1 < constructed s'"
      using inv mem same unfolding binding_inv_def s' by auto
  qed
  from keys refs each show ?thesis unfolding binding_inv_def by simp
qed

lemma binding_inv_bound_has_record:
  assumes "binding_inv s" and "map_of (targetMap s) k = Some t"
  shows "\<exists>d. map_of (targetIdToTargetDataMap s) (JStr k) = Some d"
  using assms map_of_SomeD [OF assms(2)] unfolding binding_inv_def Map_has_def by auto

lemma binding_inv_connectTo:
  assumes inv: "binding_inv s"
  shows "binding_inv (fst (connectTo s targetId wsFrom))"
proof (cases "map_of (targetIdToTargetDataMap s) (JStr targetId)")
  case None
  then show ?thesis
    using inv by (auto simp: connectTo_def Logger_error_def intro: binding_inv_frame)
next
  case (Some targetData)
  show ?thesis
  proof (cases "map_of (targetMap s) targetId")
    case None
    have fresh: "targetId \<notin> fst ` set (targetMap s)"
      using None by (simp add: map_of_eq_None_iff)
    have has: "Map_has (targetIdToTargetDataMap s) (JStr targetId)"
      using Some by (simp add: Map_has_def)
    have refs: "\<forall>(k, t) \<in> set (targetMap s). ref t < constructed s"
      using inv unfolding binding_inv_def by auto
    then have "constructed s \<notin> (\<lambda>(k, t). ref t) ` set (targetMap s)"
      by auto
    then show ?thesis
      using inv fresh has unfolding connectTo_fresh [OF Some None] binding_inv_def
      by (auto simp: less_Suc_eq)
  next
    case Some2: (Some target)
    show ?thesis
      unfolding connectTo_bound [OF Some Some2]
      by (rule binding_inv_update [OF inv Some2, of "Target_updateClient target wsFrom"])
         (simp_all add: Target_updateClient_def Map_set_def)
  qed
qed

lemma binding_inv_forwardTo:
  assumes inv: "binding_inv s"
  shows "binding_inv (forwardTo s targetId message)"
proof (cases "map_of (targetMap s) targetId")
  case None
  then show ?thesis
    using inv by (auto simp: forwardTo_def Logger_error_def intro: binding_inv_frame)
next
  case (Some target)
  show ?thesis
    by (rule binding_inv_update [OF inv Some, of "Target_forward target message"])
       (simp_all add: forwardTo_def Some Target_forward_def Map_set_def)
qed

lemma binding_inv_exec:
  assumes "binding_inv s"
  shows "binding_inv (fst (exec P s c))"
proof (cases c)
  case (GetTargets metadata res)
  obtain s' r where g: "getTargets P s metadata res = (s', r)"
    by (cases "getTargets P s metadata res")
  from getTargets_frame [OF g] assms have "binding_inv s'"
    by (intro binding_inv_frame [of s s']) simp_all
  with g GetTargets show ?thesis by simp
next
  case (ConnectTo targetId wsFrom)
  then show ?thesis
    using binding_inv_connectTo [OF assms, of targetId wsFrom]
    by (simp add: split_beta)
next
  case (ForwardTo targetId message)
  then show ?thesis using binding_inv_forwardTo [OF assms] by simp
qed (use assms in \<open>auto simp: on_error_def intro: binding_inv_frame
      simp: start_frame stop_frame forceRefresh_frame on_socketClosed_frame\<close>)

lemma binding_inv_run:
  assumes "binding_inv s"
  shows "binding_inv (fst (run P s cs))"
  using assms
proof (induction cs arbitrary: s)
  case Nil
  then show ?case by simp
next
  case (Cons c cs)
  from binding_inv_exec [OF Cons.prems, of P c] Cons.IH [of "fst (exec P s c)"]
  show ?case by (simp add: split_beta)
qed

lemma binding_inv_new: "binding_inv (new_Adapter i socket opts)"
  by (simp add: binding_inv_def new_Adapter_def Let_def)


lemma connectTo_table:
  "targetIdToTargetDataMap (fst (connectTo s targetId wsFrom)) = targetIdToTargetDataMap s"
  by (simp add: connectTo_def Logger_error_def Logger_log_def Let_def split: option.splits)

lemma forwardTo_table:
  "targetIdToTargetDataMap (forwardTo s targetId message) = targetIdToTargetDataMap s"
  by (simp add: forwardTo_def Logger_error_def split: option.splits)

lemma exec_keeps_record:
  assumes "Map_has (targetIdToTargetDataMap s) k"
  shows "Map_has (targetIdToTargetDataMap (fst (exec P s c))) k"
proof (cases c)
  case (GetTargets metadata res)
  obtain s' r where g: "getTargets P s metadata res = (s', r)"
    by (cases "getTargets P s metadata res")
  from getTargets_frame [OF g] assms g GetTargets show ?thesis by simp
qed (use assms in \<open>simp_all add: on_error_def start_frame stop_frame forceRefresh_frame
      on_socketClosed_frame connectTo_table forwardTo_table split_beta\<close>)

lemma connectTo_keeps_binding:
  assumes "map_of (targetMap s) k = Some t"
  shows "\<exists>t'. map_of (targetMap (fst (connectTo s targetId wsFrom))) k = Some t' \<and> ref t' = ref t"
proof (cases "map_of (targetIdToTargetDataMap s) (JStr targetId)")
  case None
  with assms show ?thesis by (simp add: connectTo_def Logger_error_def)
next
  case (Some targetData)
  show ?thesis
  proof (cases "map_of (targetMap s) targetId")
    case None
    with assms show ?thesis
      unfolding connectTo_fresh [OF Some None] by (simp add: map_add_def)
  next
    case Some2: (Some target)
    with assms show ?thesis
      unfolding connectTo_bound [OF Some Some2]
      by (auto simp: Map_set_def update_conv' Target_updateClient_def)
  qed
qed

lemma forwardTo_keeps_binding:
  assumes "map_of (targetMap s) k = Some t"
  shows "\<exists>t'. map_of (targetMap (forwardTo s targetId message)) k = Some t' \<and> ref t' = ref t"
  using assms
  by (auto simp: forwardTo_def Logger_error_def Map_set_def update_conv' Target_forward_def
      split: option.splits)

lemma exec_keeps_binding:
  assumes "map_of (targetMap s) k = Some t"
  shows "\<exists>t'. map_of (targetMap (fst (exec P s c))) k = Some t' \<and> ref t' = ref t"
proof (cases c)
  case (GetTargets metadata res)
  obtain s' r where g: "getTargets P s metadata res = (s', r)"
    by (cases "getTargets P s metadata res")
  from getTargets_frame [OF g] assms g GetTargets show ?thesis by simp
next
  case (ConnectTo targetId wsFrom)
  with connectTo_keeps_binding [OF assms, of targetId wsFrom] show ?thesis
    by (simp add: split_beta)
next
  case (ForwardTo targetId message)
  with forwardTo_keeps_binding [OF assms, of targetId message] show ?thesis by simp
qed (use assms in \<open>simp_all add: on_error_def start_frame stop_frame forceRefresh_frame
      on_socketClosed_frame\<close>)

lemma connectTo_discovered:
  assumes "Map_has (targetIdToTargetDataMap s) (JStr targetId)"
  shows "\<exists>t. snd (connectTo s targetId wsFrom) = Some t \<and>
             map_of (targetMap (fst (connectTo s targetId wsFrom))) targetId = Some t \<and>
             (\<forall>t0. map_of (targetMap s) targetId = Some t0 \<longrightarrow> ref t = ref t0)"
proof -
  from assms obtain targetData
    where rec: "map_of (targetIdToTargetDataMap s) (JStr targetId) = Some targetData"
    by (auto simp: Map_has_def)
  show ?thesis
  proof (cases "map_of (targetMap s) targetId")
    case None
    then show ?thesis
      unfolding connectTo_fresh [OF rec None] by (simp add: map_add_def)
  next
    case (Some target)
    then show ?thesis
      unfolding connectTo_bound [OF rec Some]
      by (simp add: Map_set_def update_conv' Target_updateClient_def)
  qed
qed

lemma run_bound_same_ref:
  assumes "map_of (targetMap s) targetId = Some t0"
      and "Map_has (targetIdToTargetDataMap s) (JStr targetId)"
  shows "\<forall>(c, out) \<in> set (zip cs (snd (run P s cs))).
           \<forall>w. c = ConnectTo targetId w \<longrightarrow> (\<exists>t. out = Session (Some t) \<and> ref t = ref t0)"
  using assms
proof (induction cs arbitrary: s t0)
  case Nil
  show ?case by simp
next
  case (Cons c cs)
  let ?s1 = "fst (exec P s c)"
  from exec_keeps_binding [OF Cons.prems(1), of P c]
  obtain t1 where t1: "map_of (targetMap ?s1) targetId = Some t1" "ref t1 = ref t0" by blast
  have rec1: "Map_has (targetIdToTargetDataMap ?s1) (JStr targetId)"
    by (rule exec_keeps_record [OF Cons.prems(2)])
  have rest: "\<forall>(c, out) \<in> set (zip cs (snd (run P ?s1 cs))).
           \<forall>w. c = ConnectTo targetId w \<longrightarrow> (\<exists>t. out = Session (Some t) \<and> ref t = ref t0)"
    using Cons.IH [OF t1(1) rec1] t1(2) by simp
  have head: "\<forall>w. c = ConnectTo targetId w \<longrightarrow>
                (\<exists>t. snd (exec P s c) = Session (Some t) \<and> ref t = ref t0)"
  proof (intro allI impI)
    fix w assume c: "c = ConnectTo targetId w"
    from connectTo_discovered [OF Cons.prems(2), of w] Cons.prems(1)
    show "\<exists>t. snd (exec P s c) = Session (Some t) \<and> ref t = ref t0"
      by (auto simp: c split_beta)
  qed
  have "snd (run P s (c # cs)) = snd (exec P s c) # snd (run P ?s1 cs)"
    by (simp add: split_beta)
  with head rest show ?case
    by (simp del: exec.simps run.simps) blast
qed

lemma run_discovered_same_ref:
  assumes "Map_has (targetIdToTargetDataMap s) (JStr targetId)"
  shows "\<exists>r. \<forall>(c, out) \<in> set (zip cs (snd (run P s cs))).
           \<forall>w. c = ConnectTo targetId w \<longrightarrow> (\<exists>t. out = Session (Some t) \<and> ref t = r)"
  using assms
proof (induction cs arbitrary: s)
  case Nil
  show ?case by simp
next
  case (Cons c cs)
  let ?s1 = "fst (exec P s c)"
  have rec1: "Map_has (targetIdToTargetDataMap ?s1) (JStr targetId)"
    by (rule exec_keeps_record [OF Cons.prems])
  show ?case
  proof (cases "\<exists>w. c = ConnectTo targetId w")
    case True
    then obtain w where c: "c = ConnectTo targetId w" ..
    from connectTo_discovered [OF Cons.prems, of w]
    obtain t where t: "snd (connectTo s targetId w) = Some t"
        "map_of (targetMap (fst (connectTo s targetId w))) targetId = Some t" by blast
    have s1: "?s1 = fst (connectTo s targetId w)" by (simp add: c split_beta)
    from run_bound_same_ref [of ?s1 targetId t cs P] t(2) rec1 s1
    have "\<forall>(c, out) \<in> set (zip cs (snd (run P ?s1 cs))).
           \<forall>w. c = ConnectTo targetId w \<longrightarrow> (\<exists>t'. out = Session (Some t') \<and> ref t' = ref t)"
      by simp
    with t(1) show ?thesis
      by (intro exI [of _ "ref t"]) (simp add: c split_beta)
  next
    case False
    from Cons.IH [OF rec1] obtain r where
      "\<forall>(c, out) \<in> set (zip cs (snd (run P ?s1 cs))).
           \<forall>w. c = ConnectTo targetId w \<longrightarrow> (\<exists>t. out = Session (Some t) \<and> ref t = r)" ..
    with False show ?thesis
      by (intro exI [of _ r]) (simp add: split_beta)
  qed
qed

section \<open>The example Adapter, evaluated\<close>

lemma example_adapter_fields:
  "adapter_id example_adapter = ''/ios/device1''"
  "adapterType example_adapter = ''_ios''"
  "proxyUrl example_adapter = ''ws://localhost:9000''"
  "proxyProc example_adapter = None"
  "targetMap example_adapter = []"
  "targetIdToTargetDataMap example_adapter = []"
  "constructed example_adapter = 0"
  "logged example_adapter = []"
  by (simp_all add: example_adapter_def new_Adapter_def indexOf_def substr_def Let_def)


lemma example_parse_body:
  "example_parse example_body = Some (JArr (map JObj [example_raw]) [])"
  by (simp add: example_parse_def)


lemma example_raw_facts:
  "json_value (JObj example_raw)" "normalized_id example_raw = JStr ''A''"
  by (simp_all add: example_raw_def normalized_id_def js_or_def prop_get_def)


lemma example_before_rewrite:
  "before_rewrite example_adapter example_raw metadata =
     [(''id'', JStr ''A''),
      (''webSocketDebuggerUrl'', JStr ''ws://127.0.0.1:9222/devtools/page/A''),
      (''adapterType'', JStr ''_ios''),
      (''type'', JStr ''page''),
      (''metadata'', metadata)]"
  by (simp add: before_rewrite_def example_raw_def normalized_id_def js_or_def prop_get_def
      prop_set_def example_adapter_fields)

lemma example_getTargets:
  "getTargets example_parse example_adapter metadata (Response status example_body) =
     (example_adapter\<lparr>targetIdToTargetDataMap :=
        [(JStr ''A'', json_clone (JObj (before_rewrite example_adapter example_raw metadata)))]\<rparr>,
      Resolved [JObj (after_rewrite example_adapter example_raw metadata)])"
  using getTargets_objects [of example_parse example_body "[example_raw]" "[]" example_adapter metadata status]
  by (simp add: example_parse_body store_record_def example_raw_facts Map_set_val_def Map_set_def
      example_adapter_fields del: json_clone.simps)


lemma example_start_fields:
  "adapter_id (start example_adapter) = ''/ios/device1''"
  "adapterType (start example_adapter) = ''_ios''"
  "proxyUrl (start example_adapter) = ''ws://localhost:9000''"
  "proxyProc (start example_adapter) = Some 0"
  "targetMap (start example_adapter) = []"
  "targetIdToTargetDataMap (start example_adapter) = []"
  "constructed (start example_adapter) = 0"
  by (simp_all add: example_adapter_def example_options_def new_Adapter_def start_def
      spawnProcess_def Logger_log_def indexOf_def substr_def Let_def)

lemma example_discovered_eq:
  "example_discovered =
     (start example_adapter)\<lparr>targetIdToTargetDataMap := [(JStr ''A'', example_record)]\<rparr>"
  using getTargets_objects [of example_parse example_body "[example_raw]" "[]"
          "start example_adapter" JUndefined 200]
  by (simp add: example_discovered_def example_calls_def example_parse_body store_record_def
      example_raw_facts Map_set_val_def Map_set_def example_start_fields before_rewrite_def
      normalized_id_def js_or_def prop_get_def prop_set_def example_raw_def example_record_def)

lemma example_discovered_fields:
  "targetIdToTargetDataMap example_discovered = [(JStr ''A'', example_record)]"
  "targetMap example_discovered = []"
  "constructed example_discovered = 0"
  "proxyProc example_discovered = Some 0"
  by (simp_all add: example_discovered_eq example_start_fields)

lemma run_snoc:
  "fst (run P s (cs @ [c])) = fst (exec P (fst (run P s cs)) c)"
  by (induction cs arbitrary: s) (simp_all add: split_beta)

lemma example_bound_eq:
  "example_bound =
     example_discovered\<lparr>constructed := 1, targetMap := [(''A'', example_session)]\<rparr>"
proof -
  have "example_bound = fst (connectTo example_discovered ''A'' 1)"
    by (simp add: example_bound_def run_snoc example_discovered_def split_beta)
  also have "\<dots> = example_discovered\<lparr>constructed := 1, targetMap := [(''A'', example_session)]\<rparr>"
    using connectTo_fresh [of example_discovered "''A''" example_record 1]
    by (simp add: example_discovered_fields example_session_def example_record_def prop_get_def)
  finally show ?thesis .
qed

lemma example_bound_fields:
  "targetIdToTargetDataMap example_bound = [(JStr ''A'', example_record)]"
  "targetMap example_bound = [(''A'', example_session)]"
  "constructed example_bound = 1"
  by (simp_all add: example_bound_eq example_discovered_fields)

section \<open>Identity derivation\<close>

lemma index_of_char:
  "index_of [c] s = (if c \<in> set s then int (length (takeWhile (\<lambda>x. x \<noteq> c) s)) else - 1)"
  by (induction s) (auto simp: Let_def)

text \<open>
  C7 (as amended). For a path-like id, \<open>/\<close> followed by \<open>rest\<close>: if a second \<open>/\<close> occurs, the
  adapter type is \<open>_\<close> followed by the segment between the first and the second \<open>/\<close>;
  otherwise it is the id with its leading \<open>/\<close> replaced by \<open>_\<close> (not stripped).
\<close>

theorem adapterType_derivation:
  "adapterType (new_Adapter (CHR ''/'' # rest) socket opts) =
     (if CHR ''/'' \<in> set rest then ''_'' @ takeWhile (\<lambda>c. c \<noteq> CHR ''/'') rest
      else ''_'' @ rest)"
proof -
  let ?seg = "takeWhile (\<lambda>c. c \<noteq> CHR ''/'') rest"
  have le: "min (int (length ?seg)) (int (length rest)) = int (length ?seg)"
    using length_takeWhile_le [of "\<lambda>c. c \<noteq> CHR ''/''" rest] by simp
  have tk: "take (length ?seg) rest = ?seg"
    by (rule takeWhile_eq_take [symmetric])
  show ?thesis
    by (simp add: new_Adapter_def indexOf_def substr_def Let_def index_of_char le tk)
qed

text \<open>C7, witness: \<open>/browser/instance1\<close> gives \<open>_browser\<close>, and \<open>/headless\<close> gives \<open>_headless\<close>.\<close>

theorem adapterType_derivation_witness:
  "adapterType (new_Adapter ''/browser/instance1'' ''ws://localhost:9000'' example_options)
     = ''_browser'' \<and>
   adapterType (new_Adapter ''/headless'' ''ws://localhost:9000'' example_options)
     = ''_headless''"
  using adapterType_derivation [of "''browser/instance1''" "''ws://localhost:9000''" example_options]
        adapterType_derivation [of "''headless''" "''ws://localhost:9000''" example_options]
  by simp

text \<open>
  C7 as the claim words it fails: for the id \<open>/headless\<close>, which has no second \<open>/\<close>, the
  adapter type is not the id with its leading \<open>/\<close> stripped.
\<close>

theorem adapterType_stripped_counterexample:
  "adapterType (new_Adapter ''/headless'' ''ws://localhost:9000'' example_options)
     \<noteq> spec_adapterType ''/headless''"
  by (simp add: new_Adapter_def indexOf_def substr_def Let_def spec_adapterType_def)

section \<open>The helper subprocess\<close>

text \<open>
  C1 at a concrete Adapter: started, it tracks process 0. \<open>forceRefresh\<close> sends that process
  \<open>SIGTERM\<close>, and then spawns nothing: the tracked handle is still process 0 and no second
  process exists. (\<open>spawnProcess\<close> spawns only when no handle is tracked, and
  \<open>refereshProcess\<close> does not clear the handle as \<open>stop\<close> does.)
\<close>

theorem forceRefresh_no_respawn:
  "proxyProc (start example_adapter) = Some 0 \<and>
   proxyProc (forceRefresh (start example_adapter)) = Some 0 \<and>
   kills (forceRefresh (start example_adapter)) = [(0, ''SIGTERM'')] \<and>
   children (forceRefresh (start example_adapter)) = children (start example_adapter) \<and>
   length (children (forceRefresh (start example_adapter))) = 1"
  by (simp add: example_adapter_def example_options_def new_Adapter_def start_def forceRefresh_def
      refereshProcess_def spawnProcess_def kill_def Logger_log_def Let_def)

section \<open>Discovery failures\<close>

text \<open>
  C5. When the request fails with a transport error, the promise of \<open>getTargets\<close> is resolved
  with the empty sequence, and the Adapter is left as it was: neither table changes.
\<close>

theorem getTargets_transport_error:
  "getTargets JSON_parse s metadata (RequestError e) = (s, Resolved [])"
  by (simp add: getTargets_def)

text \<open>
  C9. When the request succeeds and the body is not valid JSON, parsing throws inside the
  callback: the promise is neither resolved nor rejected, and the Adapter is left as it was.
\<close>

theorem getTargets_invalid_json:
  "JSON_parse body = None \<Longrightarrow>
   getTargets JSON_parse s metadata (Response status body) = (s, NeverSettled SyntaxError)"
  by (simp add: getTargets_def)

text \<open>C9, witness: an HTML error page as the body.\<close>

theorem getTargets_invalid_json_witness:
  "example_parse ''<html>Not Found</html>'' = None \<and>
   getTargets example_parse example_adapter JUndefined (Response 200 ''<html>Not Found</html>'')
     = (example_adapter, NeverSettled SyntaxError)"
proof -
  have h: "example_parse ''<html>Not Found</html>'' = None"
    by (simp add: example_parse_def example_body_def example_nameless_body_def)
  show ?thesis
    using h getTargets_invalid_json
            [of example_parse "''<html>Not Found</html>''" example_adapter JUndefined 200]
    by simp
qed

text \<open>
  C6 (as amended). The status code of a response is never read: a response with any status
  is handled as the response with status 200 and the same body is. In particular a body
  that parses to an array of descriptors is rewritten and returned, and its Real Endpoint
  Records are stored, whatever the status.
\<close>

theorem getTargets_status_not_read:
  "getTargets JSON_parse s metadata (Response status body)
     = getTargets JSON_parse s metadata (Response 200 body) \<and>
   (\<forall>pss qs. JSON_parse body = Some (JArr (map JObj pss) qs) \<longrightarrow>
      getTargets JSON_parse s metadata (Response status body) =
        (s\<lparr>targetIdToTargetDataMap :=
             foldl (store_record s metadata) (targetIdToTargetDataMap s) pss\<rparr>,
         Resolved (map (\<lambda>ps. JObj (after_rewrite s ps metadata)) pss)))"
proof -
  have "getTargets JSON_parse s metadata (Response status body)
     = getTargets JSON_parse s metadata (Response 200 body)"
    by (simp add: getTargets_def)
  moreover have "\<forall>pss qs. JSON_parse body = Some (JArr (map JObj pss) qs) \<longrightarrow>
      getTargets JSON_parse s metadata (Response status body) =
        (s\<lparr>targetIdToTargetDataMap :=
             foldl (store_record s metadata) (targetIdToTargetDataMap s) pss\<rparr>,
         Resolved (map (\<lambda>ps. JObj (after_rewrite s ps metadata)) pss))"
    using getTargets_objects [of JSON_parse body _ _ s metadata status] by blast
  ultimately show ?thesis by blast
qed

text \<open>C6, witness: the example body under status 404.\<close>

theorem getTargets_status_not_read_witness:
  "example_parse example_body = Some (JArr (map JObj [example_raw]) []) \<and>
   getTargets example_parse example_adapter JUndefined (Response 404 example_body)
     = getTargets example_parse example_adapter JUndefined (Response 200 example_body) \<and>
   getTargets example_parse example_adapter JUndefined (Response 404 example_body)
     = (example_adapter\<lparr>targetIdToTargetDataMap := [(JStr ''A'', example_record)]\<rparr>,
        Resolved [JObj (after_rewrite example_adapter example_raw JUndefined)])"
proof -
  have h: "example_parse example_body = Some (JArr (map JObj [example_raw]) [])"
    by (rule example_parse_body)
  from getTargets_status_not_read
         [where JSON_parse = example_parse and s = example_adapter and metadata = JUndefined
            and status = 404 and body = example_body] h
  have e1: "getTargets example_parse example_adapter JUndefined (Response 404 example_body)
          = getTargets example_parse example_adapter JUndefined (Response 200 example_body)"
    and e2: "getTargets example_parse example_adapter JUndefined (Response 404 example_body) =
          (example_adapter\<lparr>targetIdToTargetDataMap :=
             foldl (store_record example_adapter JUndefined)
               (targetIdToTargetDataMap example_adapter) [example_raw]\<rparr>,
           Resolved (map (\<lambda>ps. JObj (after_rewrite example_adapter ps JUndefined)) [example_raw]))"
    by blast+
  have "foldl (store_record example_adapter JUndefined)
               (targetIdToTargetDataMap example_adapter) [example_raw]
          = [(JStr ''A'', example_record)]"
    by (simp add: store_record_def example_raw_facts Map_set_val_def Map_set_def
        example_adapter_fields example_before_rewrite example_record_def)
  with e2 have e3: "getTargets example_parse example_adapter JUndefined (Response 404 example_body)
     = (example_adapter\<lparr>targetIdToTargetDataMap := [(JStr ''A'', example_record)]\<rparr>,
        Resolved [JObj (after_rewrite example_adapter example_raw JUndefined)])"
    by simp
  from h e1 e3 show ?thesis by blast
qed

text \<open>
  C6 as the claim words it fails: a response with status 500 whose body lists a target
  does not resolve to the empty sequence, and a Real Endpoint Record is stored.
\<close>

theorem getTargets_non_2xx_counterexample:
  "snd (getTargets example_parse example_adapter JUndefined (Response 500 example_body))
     \<noteq> Resolved [] \<and>
   targetIdToTargetDataMap
     (fst (getTargets example_parse example_adapter JUndefined (Response 500 example_body)))
     \<noteq> targetIdToTargetDataMap example_adapter"
  by (simp add: example_getTargets example_adapter_fields)

section \<open>The rewrite of discovered targets\<close>

text \<open>
  C2 (as amended). Let the response parse to an array of objects, and let descriptor \<open>k\<close> be
  a JSON value whose normalized id is the string \<open>i\<close>, the last of the response with that
  id. Then \<open>getTargets\<close> resolves with one descriptor for each raw one; the returned
  descriptor \<open>k\<close> has as \<open>webSocketDebuggerUrl\<close> exactly the relay address, the adapter id,
  \<open>/\<close> and \<open>i\<close>; and the Real Endpoint Record stored for \<open>i\<close> is the JSON copy of the
  descriptor as it stood before URL rewriting. That copy equals the descriptor exactly when
  the metadata attached is a JSON value; when the metadata is \<open>undefined\<close> (\<open>getTargets\<close>
  called without metadata) the copy is the descriptor without its \<open>metadata\<close> property.
\<close>

theorem getTargets_rewrite_roundtrip:
  assumes "JSON_parse body = Some (JArr (map JObj pss) qs)"
      and "k < length pss"
      and "json_value (JObj (pss ! k))"
      and "normalized_id (pss ! k) = JStr i"
      and "\<forall>j. k < j \<and> j < length pss \<longrightarrow> normalized_id (pss ! j) \<noteq> JStr i"
  shows "\<exists>s' targets.
      getTargets JSON_parse s metadata (Response status body) = (s', Resolved targets) \<and>
      length targets = length pss \<and>
      js_get (targets ! k) ''webSocketDebuggerUrl'' = JStr (proxyUrl s @ adapter_id s @ ''/'' @ i) \<and>
      map_of (targetIdToTargetDataMap s') (JStr i)
        = Some (json_clone (JObj (before_rewrite s (pss ! k) metadata))) \<and>
      (json_value metadata \<longrightarrow>
         json_clone (JObj (before_rewrite s (pss ! k) metadata))
           = JObj (before_rewrite s (pss ! k) metadata)) \<and>
      (metadata = JUndefined \<longrightarrow>
         json_clone (JObj (before_rewrite s (pss ! k) metadata))
           = JObj (filter (\<lambda>(key, v). key \<noteq> ''metadata'') (before_rewrite s (pss ! k) metadata)))"
proof -
  have last: "find (\<lambda>ps. normalized_id ps = JStr i) (rev pss) = Some (pss ! k)"
    by (rule find_last) (use assms in auto)
  have rec: "map_of (foldl (store_record s metadata) (targetIdToTargetDataMap s) pss) (JStr i)
        = Some (json_clone (JObj (before_rewrite s (pss ! k) metadata)))"
    by (simp add: map_of_foldl_store last del: json_clone.simps)
  have url: "js_get (map (\<lambda>ps. JObj (after_rewrite s ps metadata)) pss ! k) ''webSocketDebuggerUrl''
        = JStr (proxyUrl s @ adapter_id s @ ''/'' @ i)"
    using assms(2,4) by (simp add: after_rewrite_url)
  have exact: "json_value metadata \<longrightarrow>
         json_clone (JObj (before_rewrite s (pss ! k) metadata))
           = JObj (before_rewrite s (pss ! k) metadata)"
    using before_rewrite_json [OF assms(3,4)] json_clone_json_value by blast
  have dropped: "metadata = JUndefined \<longrightarrow>
         json_clone (JObj (before_rewrite s (pss ! k) metadata))
           = JObj (filter (\<lambda>(key, v). key \<noteq> ''metadata'') (before_rewrite s (pss ! k) metadata))"
    using before_rewrite_undefined_metadata [OF assms(3,4)] by blast
  have run: "getTargets JSON_parse s metadata (Response status body) =
     (s\<lparr>targetIdToTargetDataMap := foldl (store_record s metadata) (targetIdToTargetDataMap s) pss\<rparr>,
      Resolved (map (\<lambda>ps. JObj (after_rewrite s ps metadata)) pss))"
    using assms(1) by (rule getTargets_objects [of JSON_parse body pss qs])
  show ?thesis
    unfolding run using rec url exact dropped by (simp del: json_clone.simps)
qed

text \<open>C2, witness: the example response, discovered with a metadata object.\<close>

theorem getTargets_rewrite_roundtrip_witness:
  "example_parse example_body = Some (JArr (map JObj [example_raw]) []) \<and>
   json_value (JObj ([example_raw] ! 0)) \<and>
   normalized_id ([example_raw] ! 0) = JStr ''A'' \<and>
   json_value example_metadata \<and>
   (\<exists>s' targets.
      getTargets example_parse example_adapter example_metadata (Response 200 example_body)
        = (s', Resolved targets) \<and>
      js_get (targets ! 0) ''webSocketDebuggerUrl'' = JStr ''ws://localhost:9000/ios/device1/A'' \<and>
      map_of (targetIdToTargetDataMap s') (JStr ''A'') =
        Some (JObj [(''id'', JStr ''A''),
                    (''webSocketDebuggerUrl'', JStr ''ws://127.0.0.1:9222/devtools/page/A''),
                    (''adapterType'', JStr ''_ios''),
                    (''type'', JStr ''page''),
                    (''metadata'', example_metadata)]))"
proof -
  have h1: "example_parse example_body = Some (JArr (map JObj [example_raw]) [])"
    by (rule example_parse_body)
  have h2: "0 < length [example_raw]" by simp
  have h3: "json_value (JObj ([example_raw] ! 0))" using example_raw_facts(1) by simp
  have h4: "normalized_id ([example_raw] ! 0) = JStr ''A''" using example_raw_facts(2) by simp
  have h5: "\<forall>j. 0 < j \<and> j < length [example_raw] \<longrightarrow> normalized_id ([example_raw] ! j) \<noteq> JStr ''A''"
    by simp
  have md: "json_value example_metadata" by (simp add: example_metadata_def)
  from getTargets_rewrite_roundtrip
         [where JSON_parse = example_parse and body = example_body and pss = "[example_raw]"
            and qs = "[]" and k = 0 and i = "''A''" and s = example_adapter
            and metadata = example_metadata and status = 200, OF h1 h2 h3 h4 h5]
  obtain s' targets where
      g: "getTargets example_parse example_adapter example_metadata (Response 200 example_body)
            = (s', Resolved targets)"
    and u: "js_get (targets ! 0) ''webSocketDebuggerUrl''
            = JStr (proxyUrl example_adapter @ adapter_id example_adapter @ ''/'' @ ''A'')"
    and r: "map_of (targetIdToTargetDataMap s') (JStr ''A'')
            = Some (json_clone (JObj (before_rewrite example_adapter ([example_raw] ! 0) example_metadata)))"
    and e: "json_value example_metadata \<longrightarrow>
            json_clone (JObj (before_rewrite example_adapter ([example_raw] ! 0) example_metadata))
              = JObj (before_rewrite example_adapter ([example_raw] ! 0) example_metadata)"
    by blast
  from r e md have "map_of (targetIdToTargetDataMap s') (JStr ''A'')
      = Some (JObj (before_rewrite example_adapter example_raw example_metadata))"
    by simp
  with g u h1 h3 h4 md show ?thesis
    by (simp add: example_before_rewrite example_adapter_fields)
qed

text \<open>
  C2 as the claim words it fails: discovered without metadata, the record stored for \<open>A\<close>
  has four properties, the descriptor before URL rewriting has five (\<open>metadata\<close>, holding
  \<open>undefined\<close>, is the fifth), so the two are not equal.
\<close>

theorem getTargets_rewrite_roundtrip_counterexample:
  "map_of (targetIdToTargetDataMap
            (fst (getTargets example_parse example_adapter JUndefined (Response 200 example_body))))
          (JStr ''A'')
     = Some (JObj [(''id'', JStr ''A''),
                   (''webSocketDebuggerUrl'', JStr ''ws://127.0.0.1:9222/devtools/page/A''),
                   (''adapterType'', JStr ''_ios''),
                   (''type'', JStr ''page'')]) \<and>
   before_rewrite example_adapter example_raw JUndefined
     = [(''id'', JStr ''A''),
        (''webSocketDebuggerUrl'', JStr ''ws://127.0.0.1:9222/devtools/page/A''),
        (''adapterType'', JStr ''_ios''),
        (''type'', JStr ''page''),
        (''metadata'', JUndefined)] \<and>
   map_of (targetIdToTargetDataMap
            (fst (getTargets example_parse example_adapter JUndefined (Response 200 example_body))))
          (JStr ''A'')
     \<noteq> Some (JObj (before_rewrite example_adapter example_raw JUndefined))"
  by (simp add: example_getTargets example_before_rewrite)



section \<open>Binding and forwarding\<close>

text \<open>
  C4. \<open>connectTo\<close> for an id with no Real Endpoint Record returns \<^verbatim>\<open>null\<close>, and the Adapter is
  as before except for the line written to the log: the binding table, the endpoint table
  and the subprocess handle are unchanged.
\<close>

theorem connectTo_not_found:
  assumes "\<not> Map_has (targetIdToTargetDataMap s) (JStr targetId)"
  shows "connectTo s targetId wsFrom =
           (s\<lparr>logged := logged s @ [Error (''No endpoint url found for id '' @ targetId)]\<rparr>, None)
         \<and> targetMap (fst (connectTo s targetId wsFrom)) = targetMap s
         \<and> targetIdToTargetDataMap (fst (connectTo s targetId wsFrom)) = targetIdToTargetDataMap s
         \<and> proxyProc (fst (connectTo s targetId wsFrom)) = proxyProc s"
  using assms by (simp add: connectTo_def Map_has_def Logger_error_def)

text \<open>C4, witness: an id that was never discovered, on the started example Adapter.\<close>

theorem connectTo_not_found_witness:
  "\<not> Map_has (targetIdToTargetDataMap (start example_adapter)) (JStr ''ghost-id'') \<and>
   snd (connectTo (start example_adapter) ''ghost-id'' 7) = None \<and>
   targetMap (fst (connectTo (start example_adapter) ''ghost-id'' 7)) = [] \<and>
   targetIdToTargetDataMap (fst (connectTo (start example_adapter) ''ghost-id'' 7)) = [] \<and>
   proxyProc (fst (connectTo (start example_adapter) ''ghost-id'' 7)) = Some 0"
proof -
  have st: "targetIdToTargetDataMap (start example_adapter) = [] \<and>
            targetMap (start example_adapter) = [] \<and>
            proxyProc (start example_adapter) = Some 0"
    by (simp add: example_adapter_def example_options_def new_Adapter_def start_def
        spawnProcess_def Logger_log_def Let_def)
  have h: "\<not> Map_has (targetIdToTargetDataMap (start example_adapter)) (JStr ''ghost-id'')"
    by (simp add: st Map_has_def)
  show ?thesis
    using h connectTo_not_found [OF h, of 7] st by simp
qed

lemma connectTo_constructs_only_fresh:
  assumes "constructed (fst (connectTo s targetId wsFrom)) \<noteq> constructed s \<or>
           map fst (targetMap (fst (connectTo s targetId wsFrom))) \<noteq> map fst (targetMap s)"
  shows "Map_has (targetIdToTargetDataMap s) (JStr targetId) \<and> \<not> Map_has (targetMap s) targetId"
proof (cases "map_of (targetIdToTargetDataMap s) (JStr targetId)")
  case None
  with assms show ?thesis by (simp add: connectTo_def Logger_error_def)
next
  case (Some targetData)
  show ?thesis
  proof (cases "map_of (targetMap s) targetId")
    case None
    with Some show ?thesis by (simp add: Map_has_def)
  next
    case Some2: (Some target)
    have "targetId \<in> fst ` set (targetMap s)"
      using map_of_SomeD [OF Some2] by force
    with assms show ?thesis
      unfolding connectTo_bound [OF Some Some2] by (simp add: Map_set_def update_keys)
  qed
qed

text \<open>
  C3. In every state an Adapter can reach from its construction, by any calls and events:
  the binding table holds each target id at most once; \<open>connectTo\<close> for an id with a bound
  session calls \<open>updateClient\<close> on that session and returns it, constructing nothing and
  adding no entry; \<open>connectTo\<close> for an id with a record and no session constructs a session
  on the record, connects it to the record's \<open>webSocketDebuggerUrl\<close> and the client, and
  stores it; a session is constructed or an entry added in that case only; and once the id
  has a record, all \<open>connectTo\<close> calls for it in any further run return a session, the same
  object each time.
\<close>

theorem connectTo_one_session_per_id:
  assumes "s = fst (run JSON_parse (new_Adapter i socket opts) calls)"
  shows "distinct (map fst (targetMap s)) \<and>
    (\<forall>target. map_of (targetMap s) targetId = Some target \<longrightarrow>
       connectTo s targetId wsFrom =
         (s\<lparr>logged := logged s @ [Log (''Existing target found for id '' @ targetId)],
            targetMap := Map_set (targetMap s) targetId (Target_updateClient target wsFrom)\<rparr>,
          Some (Target_updateClient target wsFrom)) \<and>
       ref (Target_updateClient target wsFrom) = ref target \<and>
       client (Target_updateClient target wsFrom) = Some wsFrom \<and>
       map fst (targetMap (fst (connectTo s targetId wsFrom))) = map fst (targetMap s) \<and>
       constructed (fst (connectTo s targetId wsFrom)) = constructed s) \<and>
    (\<forall>targetData.
       map_of (targetMap s) targetId = None \<and>
       map_of (targetIdToTargetDataMap s) (JStr targetId) = Some targetData \<longrightarrow>
       (\<exists>target.
          connectTo s targetId wsFrom =
            (s\<lparr>constructed := Suc (constructed s),
               targetMap := targetMap s @ [(targetId, target)]\<rparr>, Some target) \<and>
          ref target = constructed s \<and> target_id target = targetId \<and>
          target_data target = targetData \<and>
          remote target = Some (js_get targetData ''webSocketDebuggerUrl'') \<and>
          client target = Some wsFrom)) \<and>
    (constructed (fst (connectTo s targetId wsFrom)) \<noteq> constructed s \<or>
     map fst (targetMap (fst (connectTo s targetId wsFrom))) \<noteq> map fst (targetMap s) \<longrightarrow>
       Map_has (targetIdToTargetDataMap s) (JStr targetId) \<and> \<not> Map_has (targetMap s) targetId) \<and>
    (Map_has (targetIdToTargetDataMap s) (JStr targetId) \<longrightarrow>
       (\<exists>r. \<forall>(c, out) \<in> set (zip later (snd (run JSON_parse s later))).
              \<forall>w. c = ConnectTo targetId w \<longrightarrow>
                (\<exists>target. out = Session (Some target) \<and> ref target = r)))"
proof -
  have inv: "binding_inv s"
    unfolding assms by (rule binding_inv_run [OF binding_inv_new])
  have one: "distinct (map fst (targetMap s))"
    using inv by (simp add: binding_inv_def)
  have bound: "\<forall>target. map_of (targetMap s) targetId = Some target \<longrightarrow>
       connectTo s targetId wsFrom =
         (s\<lparr>logged := logged s @ [Log (''Existing target found for id '' @ targetId)],
            targetMap := Map_set (targetMap s) targetId (Target_updateClient target wsFrom)\<rparr>,
          Some (Target_updateClient target wsFrom)) \<and>
       ref (Target_updateClient target wsFrom) = ref target \<and>
       client (Target_updateClient target wsFrom) = Some wsFrom \<and>
       map fst (targetMap (fst (connectTo s targetId wsFrom))) = map fst (targetMap s) \<and>
       constructed (fst (connectTo s targetId wsFrom)) = constructed s"
  proof (intro allI impI)
    fix target assume b: "map_of (targetMap s) targetId = Some target"
    from binding_inv_bound_has_record [OF inv b] obtain d
      where d: "map_of (targetIdToTargetDataMap s) (JStr targetId) = Some d" ..
    have key: "targetId \<in> fst ` set (targetMap s)"
      using map_of_SomeD [OF b] by force
    show "connectTo s targetId wsFrom =
         (s\<lparr>logged := logged s @ [Log (''Existing target found for id '' @ targetId)],
            targetMap := Map_set (targetMap s) targetId (Target_updateClient target wsFrom)\<rparr>,
          Some (Target_updateClient target wsFrom)) \<and>
       ref (Target_updateClient target wsFrom) = ref target \<and>
       client (Target_updateClient target wsFrom) = Some wsFrom \<and>
       map fst (targetMap (fst (connectTo s targetId wsFrom))) = map fst (targetMap s) \<and>
       constructed (fst (connectTo s targetId wsFrom)) = constructed s"
      unfolding connectTo_bound [OF d b]
      using key by (simp add: Target_updateClient_def Map_set_def update_keys)
  qed
  have fresh: "\<forall>targetData.
       map_of (targetMap s) targetId = None \<and>
       map_of (targetIdToTargetDataMap s) (JStr targetId) = Some targetData \<longrightarrow>
       (\<exists>target.
          connectTo s targetId wsFrom =
            (s\<lparr>constructed := Suc (constructed s),
               targetMap := targetMap s @ [(targetId, target)]\<rparr>, Some target) \<and>
          ref target = constructed s \<and> target_id target = targetId \<and>
          target_data target = targetData \<and>
          remote target = Some (js_get targetData ''webSocketDebuggerUrl'') \<and>
          client target = Some wsFrom)"
  proof (intro allI impI)
    fix targetData
    assume a: "map_of (targetMap s) targetId = None \<and>
               map_of (targetIdToTargetDataMap s) (JStr targetId) = Some targetData"
    then have d: "map_of (targetIdToTargetDataMap s) (JStr targetId) = Some targetData"
      and n: "map_of (targetMap s) targetId = None" by simp_all
    show "\<exists>target.
          connectTo s targetId wsFrom =
            (s\<lparr>constructed := Suc (constructed s),
               targetMap := targetMap s @ [(targetId, target)]\<rparr>, Some target) \<and>
          ref target = constructed s \<and> target_id target = targetId \<and>
          target_data target = targetData \<and>
          remote target = Some (js_get targetData ''webSocketDebuggerUrl'') \<and>
          client target = Some wsFrom"
      unfolding connectTo_fresh [OF d n] by simp
  qed
  have only: "constructed (fst (connectTo s targetId wsFrom)) \<noteq> constructed s \<or>
     map fst (targetMap (fst (connectTo s targetId wsFrom))) \<noteq> map fst (targetMap s) \<longrightarrow>
       Map_has (targetIdToTargetDataMap s) (JStr targetId) \<and> \<not> Map_has (targetMap s) targetId"
    using connectTo_constructs_only_fresh by blast
  have same: "Map_has (targetIdToTargetDataMap s) (JStr targetId) \<longrightarrow>
       (\<exists>r. \<forall>(c, out) \<in> set (zip later (snd (run JSON_parse s later))).
              \<forall>w. c = ConnectTo targetId w \<longrightarrow>
                (\<exists>target. out = Session (Some target) \<and> ref target = r))"
    using run_discovered_same_ref by blast
  from one bound fresh only same show ?thesis by blast
qed

text \<open>
  C3, witness: the example Adapter after discovery (a first \<open>connectTo\<close> constructs session
  0) and after that call (a second \<open>connectTo\<close> returns session 0 with the new client).
\<close>

theorem connectTo_one_session_per_id_witness:
  "example_discovered =
     fst (run example_parse
            (new_Adapter ''/ios/device1'' ''ws://localhost:9000'' example_options) example_calls) \<and>
   map_of (targetMap example_discovered) ''A'' = None \<and>
   map_of (targetIdToTargetDataMap example_discovered) (JStr ''A'') = Some example_record \<and>
   (\<exists>target. snd (connectTo example_discovered ''A'' 1) = Some target \<and>
      ref target = 0 \<and> target_data target = example_record \<and>
      remote target = Some (JStr ''ws://127.0.0.1:9222/devtools/page/A'') \<and>
      client target = Some 1) \<and>
   example_bound =
     fst (run example_parse
            (new_Adapter ''/ios/device1'' ''ws://localhost:9000'' example_options)
            (example_calls @ [ConnectTo ''A'' 1])) \<and>
   distinct (map fst (targetMap example_bound)) \<and>
   map_of (targetMap example_bound) ''A'' = Some example_session \<and>
   snd (connectTo example_bound ''A'' 2) = Some (example_session\<lparr>client := Some 2\<rparr>) \<and>
   ref (example_session\<lparr>client := Some 2\<rparr>) = ref example_session \<and>
   map fst (targetMap (fst (connectTo example_bound ''A'' 2))) = [''A''] \<and>
   constructed (fst (connectTo example_bound ''A'' 2)) = 1 \<and>
   constructed (fst (connectTo example_discovered ''A'' 1)) \<noteq> constructed example_discovered \<and>
   Map_has (targetIdToTargetDataMap example_discovered) (JStr ''A'') \<and>
   (\<exists>r. \<forall>(c, out) \<in> set (zip [ConnectTo ''A'' 1, ForwardTo ''A'' ''ping'', ConnectTo ''A'' 2]
                           (snd (run example_parse example_discovered
                                   [ConnectTo ''A'' 1, ForwardTo ''A'' ''ping'', ConnectTo ''A'' 2]))).
          \<forall>w. c = ConnectTo ''A'' w \<longrightarrow> (\<exists>target. out = Session (Some target) \<and> ref target = r))"
proof -
  have d: "example_discovered =
     fst (run example_parse
            (new_Adapter ''/ios/device1'' ''ws://localhost:9000'' example_options) example_calls)"
    by (simp only: example_discovered_def example_adapter_def)
  have b: "example_bound =
     fst (run example_parse
            (new_Adapter ''/ios/device1'' ''ws://localhost:9000'' example_options)
            (example_calls @ [ConnectTo ''A'' 1]))"
    by (simp only: example_bound_def example_adapter_def)
  have unbound: "map_of (targetMap example_discovered) ''A'' = None"
    by (simp add: example_discovered_fields)
  have rec: "map_of (targetIdToTargetDataMap example_discovered) (JStr ''A'') = Some example_record"
    by (simp add: example_discovered_fields)
  have has: "Map_has (targetIdToTargetDataMap example_discovered) (JStr ''A'')"
    using rec by (simp add: Map_has_def)
  have bnd: "map_of (targetMap example_bound) ''A'' = Some example_session"
    by (simp add: example_bound_fields)
  note at_discovered =
    connectTo_one_session_per_id
      [where s = example_discovered and JSON_parse = example_parse and i = "''/ios/device1''"
         and socket = "''ws://localhost:9000''" and opts = example_options
         and calls = example_calls and targetId = "''A''" and wsFrom = 1
         and later = "[ConnectTo ''A'' 1, ForwardTo ''A'' ''ping'', ConnectTo ''A'' 2]", OF d]
  note at_bound =
    connectTo_one_session_per_id
      [where s = example_bound and JSON_parse = example_parse and i = "''/ios/device1''"
         and socket = "''ws://localhost:9000''" and opts = example_options
         and calls = "example_calls @ [ConnectTo ''A'' 1]" and targetId = "''A''" and wsFrom = 2
         and later = "[]", OF b]
  from at_discovered unbound rec
  have fresh: "\<exists>target. snd (connectTo example_discovered ''A'' 1) = Some target \<and>
      ref target = 0 \<and> target_data target = example_record \<and>
      remote target = Some (JStr ''ws://127.0.0.1:9222/devtools/page/A'') \<and>
      client target = Some 1"
    by (auto simp: example_discovered_fields example_record_def prop_get_def)
  have created: "constructed (fst (connectTo example_discovered ''A'' 1)) \<noteq> constructed example_discovered"
    using at_discovered unbound rec by auto
  from at_discovered has
  have same: "\<exists>r. \<forall>(c, out) \<in> set (zip [ConnectTo ''A'' 1, ForwardTo ''A'' ''ping'', ConnectTo ''A'' 2]
                           (snd (run example_parse example_discovered
                                   [ConnectTo ''A'' 1, ForwardTo ''A'' ''ping'', ConnectTo ''A'' 2]))).
          \<forall>w. c = ConnectTo ''A'' w \<longrightarrow> (\<exists>target. out = Session (Some target) \<and> ref target = r)"
    by blast
  from at_bound bnd
  have re: "distinct (map fst (targetMap example_bound)) \<and>
     snd (connectTo example_bound ''A'' 2) = Some (example_session\<lparr>client := Some 2\<rparr>) \<and>
     ref (example_session\<lparr>client := Some 2\<rparr>) = ref example_session \<and>
     map fst (targetMap (fst (connectTo example_bound ''A'' 2))) = [''A''] \<and>
     constructed (fst (connectTo example_bound ''A'' 2)) = 1"
    by (auto simp add: example_bound_fields Target_updateClient_def Map_set_def)
  from d b unbound rec fresh bnd re created has same show ?thesis
    by (simp del: run.simps exec.simps)
qed

text \<open>
  C8. \<open>forwardTo\<close> has no failing branch. With no binding for the id it writes a line to the
  log and changes nothing else, the binding table included. With a binding it hands the
  message, as given, to the bound session: the session's forwarded messages grow by exactly
  that message.
\<close>

theorem forwardTo_unknown_or_bound:
  "(\<not> Map_has (targetMap s) targetId \<longrightarrow>
      forwardTo s targetId message =
        s\<lparr>logged := logged s @ [Error (''No target found for id '' @ targetId)]\<rparr> \<and>
      targetMap (forwardTo s targetId message) = targetMap s) \<and>
   (\<forall>target. map_of (targetMap s) targetId = Some target \<longrightarrow>
      forwardTo s targetId message =
        s\<lparr>targetMap := Map_set (targetMap s) targetId (Target_forward target message)\<rparr> \<and>
      map_of (targetMap (forwardTo s targetId message)) targetId =
        Some (target\<lparr>forwarded := forwarded target @ [message]\<rparr>))"
  by (simp add: forwardTo_def Map_has_def Logger_error_def Map_set_def Target_forward_def
      update_conv')

text \<open>C8, witness: an unknown id and the bound id \<open>A\<close> on the example Adapter.\<close>

theorem forwardTo_unknown_or_bound_witness:
  "\<not> Map_has (targetMap example_bound) ''ghost-id'' \<and>
   forwardTo example_bound ''ghost-id'' ''msg'' =
     example_bound\<lparr>logged := logged example_bound @ [Error ''No target found for id ghost-id'']\<rparr> \<and>
   targetMap (forwardTo example_bound ''ghost-id'' ''msg'') = targetMap example_bound \<and>
   map_of (targetMap example_bound) ''A'' = Some example_session \<and>
   map_of (targetMap (forwardTo example_bound ''A'' ''msg'')) ''A''
     = Some (example_session\<lparr>forwarded := [''msg'']\<rparr>)"
proof -
  have g: "\<not> Map_has (targetMap example_bound) ''ghost-id''"
    by (simp add: Map_has_def example_bound_fields)
  have b: "map_of (targetMap example_bound) ''A'' = Some example_session"
    by (simp add: example_bound_fields)
  from forwardTo_unknown_or_bound [of example_bound "''ghost-id''" "''msg''"] g
  have 1: "forwardTo example_bound ''ghost-id'' ''msg'' =
     example_bound\<lparr>logged := logged example_bound @ [Error ''No target found for id ghost-id'']\<rparr> \<and>
     targetMap (forwardTo example_bound ''ghost-id'' ''msg'') = targetMap example_bound"
    by auto
  from forwardTo_unknown_or_bound [of example_bound "''A''" "''msg''"] b
  have "map_of (targetMap (forwardTo example_bound ''A'' ''msg'')) ''A''
     = Some (example_session\<lparr>forwarded := forwarded example_session @ [''msg'']\<rparr>)"
    by blast
  moreover have "forwarded example_session = []" by (simp add: example_session_def)
  ultimately have 2: "map_of (targetMap (forwardTo example_bound ''A'' ''msg'')) ''A''
     = Some (example_session\<lparr>forwarded := [''msg'']\<rparr>)"
    by simp
  from g b 1 2 show ?thesis by blast
qed

end
